theory Spec2Isabelle
  imports Complex_Main
begin

section \<open>Python values used by \<open>process_videos.py\<close>\<close>

text \<open>
  The \<open>video_data\<close> column arrives as a decoded JSON value: \<open>None\<close>, a bool, a number,
  a string, a list or a dict. A dict is an association list read with \<open>map_of\<close> (the first
  binding of a key is the dict's entry). A \<open>string\<close> holds one \<open>char\<close> per code point, so
  \<open>length\<close> is Python's \<open>len\<close>.
\<close>

datatype json =
    JNull
  | JBool bool
  | JNum real
  | JStr string
  | JList "json list"
  | JObj "(string \<times> json) list"

datatype error =
    ValueError string
  | DatabaseError
  | AttributeError
  | TypeError
  | OverflowError

text \<open>Python truthiness, as \<open>not videos\<close> evaluates it.\<close>

fun truthy :: "json \<Rightarrow> bool" where
  "truthy JNull = False"
| "truthy (JBool b) = b"
| "truthy (JNum x) = (x \<noteq> 0)"
| "truthy (JStr s) = (s \<noteq> [])"
| "truthy (JList xs) = (xs \<noteq> [])"
| "truthy (JObj kvs) = (kvs \<noteq> [])"

text \<open>\<open>d.get(key, default)\<close> on a dict; on any other value the attribute lookup raises.\<close>

fun py_get :: "json \<Rightarrow> string \<Rightarrow> json \<Rightarrow> error + json" where
  "py_get (JObj kvs) k dflt = Inr (case map_of kvs k of None \<Rightarrow> dflt | Some v \<Rightarrow> v)"
| "py_get _ k dflt = Inl AttributeError"

text \<open>
  \<open>str.isspace\<close> on the code points below 256, and \<open>str.strip()\<close>.
\<close>

definition py_isspace :: "char \<Rightarrow> bool" where
  "py_isspace c =
     (let n = of_char c :: nat
      in (9 \<le> n \<and> n \<le> 13) \<or> (28 \<le> n \<and> n \<le> 32) \<or> n = 133 \<or> n = 160)"

definition py_strip :: "string \<Rightarrow> string" where
  "py_strip s = rev (dropWhile py_isspace (rev (dropWhile py_isspace s)))"

section \<open>Floats\<close>

text \<open>
  A Python float is an IEEE 754 binary64 value: a finite real of the form
  \<open>m * 2 ^ e\<close> with \<open>\<bar>m\<bar> < 2 ^ 53\<close> and \<open>- 1074 \<le> e\<close>, an infinity or NaN. \<open>to_double x\<close>
  rounds the real \<open>x\<close> to the nearest such value, ties to the even significand: the
  spacing of the doubles around \<open>x\<close> is \<open>2 ^ (floor (log2 \<bar>x\<bar>) - 52)\<close>, and never less than
  \<open>2 ^ - 1074\<close>; a result of magnitude \<open>2 ^ 1024\<close> or more is an infinity. The product
  \<open>x * y\<close> of two finite floats is the exact product, rounded.
\<close>

datatype pyfloat = Finite real | PosInf | NegInf | NaN

definition pow2 :: "int \<Rightarrow> real" where
  "pow2 e = (if 0 \<le> e then 2 ^ nat e else 1 / 2 ^ nat (- e))"

definition round_half_even :: "real \<Rightarrow> int" where
  "round_half_even x =
     (let f = \<lfloor>x\<rfloor>
      in if x - of_int f < 1 / 2 then f
         else if 1 / 2 < x - of_int f then f + 1
         else if even f then f else f + 1)"

definition binary_exponent :: "real \<Rightarrow> int" where
  "binary_exponent x = \<lfloor>log 2 \<bar>x\<bar>\<rfloor>"

definition to_double :: "real \<Rightarrow> pyfloat" where
  "to_double x =
     (if x = 0 then Finite 0
      else (let q = pow2 (max (binary_exponent x - 52) (- 1074));
                y = of_int (round_half_even (x / q)) * q
            in if 2 ^ 1024 \<le> y then PosInf
               else if y \<le> - (2 ^ 1024) then NegInf
               else Finite y))"

definition fmul :: "real \<Rightarrow> real \<Rightarrow> pyfloat" where
  "fmul x y = to_double (x * y)"

text \<open>The reals that are the value of a finite float: rounding leaves them as they are.\<close>

definition is_double :: "real \<Rightarrow> bool" where
  "is_double x = (to_double x = Finite x)"

text \<open>
  \<open>int(x)\<close> on a float truncates towards zero; it raises \<open>OverflowError\<close> on an infinity
  and \<open>ValueError\<close> on NaN.
\<close>

definition py_int :: "pyfloat \<Rightarrow> error + int" where
  "py_int x =
     (case x of
        Finite v \<Rightarrow> Inr (if 0 \<le> v then \<lfloor>v\<rfloor> else \<lceil>v\<rceil>)
      | PosInf \<Rightarrow> Inl OverflowError
      | NegInf \<Rightarrow> Inl OverflowError
      | NaN \<Rightarrow> Inl (ValueError ''cannot convert float NaN to integer''))"

section \<open>Configuration: \<open>VideoProcessor.__init__\<close>\<close>



text \<open>\<open>not x\<close> for an \<open>Optional[str]\<close>: unset or empty.\<close>

definition falsy :: "string option \<Rightarrow> bool" where
  "falsy x = (case x of None \<Rightarrow> True | Some v \<Rightarrow> v = [])"

record config =
  db_url :: string
  r2_access_key :: string
  r2_secret_key :: string
  r2_endpoint :: string
  r2_bucket :: string
  huggingface_endpoint :: string
  huggingface_model :: string
  huggingface_api_key :: "string option"
  zalo_api_key :: "string option"


section \<open>Narration budget and caption font size\<close>

definition default_chars_per_second :: real where
  "default_chars_per_second = 15.0"

text \<open>
  \<open>int(video_duration * chars_per_second)\<close>. The arguments are the values of two finite
  floats (\<open>is_double\<close>): a decimal such as 8.2 is not one, the float written \<open>8.2\<close> is the
  double nearest to it. \<open>Inl\<close> is the exception \<open>int\<close> raises.
\<close>

definition calculate_target_script_length :: "real \<Rightarrow> real \<Rightarrow> error + int" where
  "calculate_target_script_length video_duration chars_per_second =
     py_int (fmul video_duration chars_per_second)"

text \<open>The call with the default argument, as \<open>generate_script\<close> makes it.\<close>

definition calculate_target_script_length_default :: "real \<Rightarrow> error + int" where
  "calculate_target_script_length_default video_duration =
     calculate_target_script_length video_duration default_chars_per_second"

text \<open>The \<open>if/elif/else\<close> of \<open>add_text_overlay\<close> on \<open>text_length = len(overlay_text)\<close>.\<close>

definition fontsize :: "nat \<Rightarrow> nat" where
  "fontsize text_length =
     (if text_length > 70 then 28
      else if text_length > 50 then 32
      else 38)"

section \<open>Scratch files\<close>

text \<open>
  The three working directories under \<open>base_dir\<close> and the files the pipeline names in
  them. The directories themselves always exist once \<open>setup_directories\<close> has run, so
  the file system is the partial map from paths to files. A file has its size in bytes
  (\<open>stat().st_size\<close>) and a body: a decodable media container, or anything else as text.
  \<open>video-data.json\<close>, written next to the script, is outside these directories and is not
  modelled.
\<close>

datatype dir = VideosDir | OutputDir | ScriptsDir

datatype fname =
    VideoMp4 nat
  | TrimmedMp4 nat
  | ConcatListTxt
  | MergedTempMp4
  | VoiceoverWav
  | VoiceoverNormalizedAac
  | MergedWithAudioMp4
  | FinalMergedVideoMp4
  | GeneratedScriptTxt
  | TextOverlayTxt
  | GenerateScriptSh
  | GenerateAudioSh

text \<open>The encoder settings a media file was produced with.\<close>

record encoding =
  enc_vcodec :: string
  enc_preset :: string
  enc_crf :: nat
  enc_acodec :: string
  enc_abitrate :: string
  enc_arate :: nat
  enc_fps :: nat

text \<open>
  What a media file shows: the bytes fetched from a URL, or a cut of another content made
  with \<open>-ss\<close> and \<open>-t\<close>.
\<close>

datatype content = Source string | Cut content real real

record media =
  m_duration :: "real option"
  m_encoding :: encoding
  m_content :: content

datatype body = Media media | Text string

datatype scratch_file = File (st_size: nat) (body: body)

type_synonym path = "dir \<times> fname"
type_synonym fs = "path \<rightharpoonup> scratch_file"

text \<open>
  \<open>ffprobe -show_entries format=duration\<close>: a non-zero exit on anything that is not a media
  container, otherwise the duration on stdout, which \<open>float()\<close> may fail to parse
  (\<open>ProbeOut None\<close>).
\<close>

datatype probe = ProbeError | ProbeOut "real option"

definition ffprobe_duration :: "scratch_file \<Rightarrow> probe" where
  "ffprobe_duration f = (case body f of Media m \<Rightarrow> ProbeOut (m_duration m) | Text _ \<Rightarrow> ProbeError)"

text \<open>
  The options of the trim command:
  \<open>-c:v libx264 -preset medium -crf 23 -c:a aac -b:a 128k -ar 48000 -r 30\<close>.
\<close>

definition trim_options :: encoding where
  "trim_options = \<lparr> enc_vcodec = ''libx264'', enc_preset = ''medium'', enc_crf = 23,
     enc_acodec = ''aac'', enc_abitrate = ''128k'', enc_arate = 48000, enc_fps = 30 \<rparr>"

text \<open>
  The transcoding engine's contract for \<open>ffmpeg -i input -ss s -t t <options> output\<close>: the
  output starts \<open>s\<close> seconds into the input, lasts \<open>t\<close> seconds or until the input ends, and
  is encoded with the options.
\<close>

definition ffmpeg_trim :: "media \<Rightarrow> real \<Rightarrow> real \<Rightarrow> encoding \<Rightarrow> media" where
  "ffmpeg_trim m ss t opts =
     \<lparr> m_duration = map_option (\<lambda>d. min t (max 0 (d - ss))) (m_duration m),
       m_encoding = opts,
       m_content = Cut (m_content m) ss t \<rparr>"

section \<open>The job table\<close>

record row =
  row_id :: int
  video_data :: json
  merge_status :: "bool option"
  crawl_status :: "bool option"
  r2_video_url :: "string option"
  processed_at :: "nat option"

type_synonym db = "row list"

text \<open>A fetched row: the projection \<open>id, video_data\<close>.\<close>

record product =
  p_id :: int
  p_video_data :: json

section \<open>The environment of one job\<close>

text \<open>
  What the outside world does during one job. \<open>curl i retry\<close> is the outcome of the
  download attempt \<open>retry\<close> for video \<open>i\<close>: \<open>subprocess.run\<close> raised, or curl ran, printed
  \<open>stdout\<close> (the \<open>%{http_code}\<close>) and wrote a file or nothing. \<open>trim_exit i\<close> is the trim
  command's exit for video \<open>i\<close>: \<open>None\<close> for a non-zero exit, otherwise the size of the
  output. The other engine and script invocations are taken whole: each returns whether it
  exited with zero and the files it left.
\<close>

datatype curl_outcome = CurlRaised | CurlDone string "scratch_file option"

record env =
  curl :: "nat \<Rightarrow> nat \<Rightarrow> curl_outcome"
  trim_exit :: "nat \<Rightarrow> nat option"
  ffmpeg_concat :: "fs \<Rightarrow> bool \<times> fs"
  generate_script_sh :: "int \<Rightarrow> real \<Rightarrow> fs \<Rightarrow> bool \<times> fs"
  generate_audio_sh :: "string option \<Rightarrow> fs \<Rightarrow> bool \<times> fs"
  ffmpeg_add_audio :: "fs \<Rightarrow> bool \<times> fs"
  ffmpeg_drawtext :: "string \<Rightarrow> nat \<Rightarrow> fs \<Rightarrow> bool \<times> fs"
  r2_put :: "string option"
  crawl_write_ok :: bool
  merge_write_ok :: bool
  now :: nat

section \<open>Working directories\<close>

text \<open>\<open>mkdir(exist_ok=True)\<close> on the three directories creates or removes no file.\<close>

definition setup_directories :: "fs \<Rightarrow> fs" where
  "setup_directories files = files"

text \<open>\<open>shutil.rmtree(directory)\<close> followed by \<open>mkdir\<close>: the directory is left empty.\<close>

definition rmtree :: "dir \<Rightarrow> fs \<Rightarrow> fs" where
  "rmtree d files = (\<lambda>(d', n). if d' = d then None else files (d', n))"

definition cleanup_directories :: "fs \<Rightarrow> fs" where
  "cleanup_directories files = fold rmtree [VideosDir, OutputDir] files"

section \<open>The job store\<close>

text \<open>
  \<open>WHERE merge_status = FALSE AND crawl_status = TRUE ORDER BY id\<close>: a NULL flag makes
  the condition unknown, and the row is not selected.
\<close>

definition pending :: "row \<Rightarrow> bool" where
  "pending r = (merge_status r = Some False \<and> crawl_status r = Some True)"

definition project :: "row \<Rightarrow> product" where
  "project r = \<lparr> p_id = row_id r, p_video_data = video_data r \<rparr>"

definition select_pending :: "db \<Rightarrow> product list" where
  "select_pending rows = sort_key p_id (map project (filter pending rows))"

text \<open>The query is rerun on every call; a store error is logged and raised again.\<close>

definition get_pending_products :: "bool \<Rightarrow> db \<Rightarrow> error + product list" where
  "get_pending_products store_up rows =
     (if store_up then Inr (select_pending rows) else Inl DatabaseError)"

definition update_merge_status :: "env \<Rightarrow> db \<Rightarrow> int \<Rightarrow> string \<Rightarrow> error + db" where
  "update_merge_status e rows product_id r2_url =
     (if merge_write_ok e
      then Inr (map (\<lambda>r. if row_id r = product_id
                          then r\<lparr> merge_status := Some True, r2_video_url := Some r2_url,
                                 processed_at := Some (now e) \<rparr>
                          else r) rows)
      else Inl DatabaseError)"

definition update_crawl_status :: "env \<Rightarrow> db \<Rightarrow> int \<Rightarrow> bool \<Rightarrow> error + db" where
  "update_crawl_status e rows product_id status =
     (if crawl_write_ok e
      then Inr (map (\<lambda>r. if row_id r = product_id then r\<lparr> crawl_status := Some status \<rparr> else r)
                 rows)
      else Inl DatabaseError)"

section \<open>Descriptor validation\<close>

text \<open>\<open>len(x)\<close>, and the items a \<open>for\<close> loop over \<open>x\<close> visits.\<close>

fun py_len :: "json \<Rightarrow> error + nat" where
  "py_len (JList xs) = Inr (length xs)"
| "py_len (JStr s) = Inr (length s)"
| "py_len (JObj kvs) = Inr (length (remdups (map fst kvs)))"
| "py_len _ = Inl TypeError"

fun py_iter :: "json \<Rightarrow> error + json list" where
  "py_iter (JList xs) = Inr xs"
| "py_iter (JStr s) = Inr (map (\<lambda>c. JStr [c]) s)"
| "py_iter (JObj kvs) = Inr (map JStr (remdups (map fst kvs)))"
| "py_iter _ = Inl TypeError"

fun is_dict :: "json \<Rightarrow> bool" where
  "is_dict (JObj kvs) = True"
| "is_dict _ = False"

fun is_list :: "json \<Rightarrow> bool" where
  "is_list (JList xs) = True"
| "is_list _ = False"

text \<open>\<open>not videos or not isinstance(videos, list) or len(videos) == 0\<close>.\<close>

definition no_videos :: "json \<Rightarrow> bool" where
  "no_videos videos =
     (\<not> truthy videos \<or> \<not> is_list videos \<or> py_len videos = Inr 0)"

text \<open>
  The three checks that \<open>run\<close> makes on a fetched descriptor (and \<open>process_product\<close>
  repeats): \<open>None\<close>, not a dict, no videos.
\<close>

definition invalid_data :: "json \<Rightarrow> bool" where
  "invalid_data vd =
     (if vd = JNull then True
      else if \<not> is_dict vd then True
      else (case py_get vd ''videos'' (JList []) of
              Inl err \<Rightarrow> True
            | Inr videos \<Rightarrow> no_videos videos))"

section \<open>Download\<close>

definition max_retries :: nat where
  "max_retries = 3"

definition http_code_of :: "string \<Rightarrow> string" where
  "http_code_of out = (if out \<noteq> [] then py_strip out else ''000'')"

text \<open>
  The body of the inner \<open>try\<close>: \<open>(True, _, files)\<close> is the \<open>break\<close>, \<open>(False, last, files)\<close>
  an exception with \<open>last_http_code\<close> as it stands when the handler runs. A \<open>url\<close> that
  is not a string makes \<open>subprocess.run\<close> raise before curl starts.
\<close>

definition attempt ::
  "env \<Rightarrow> nat \<Rightarrow> json \<Rightarrow> nat \<Rightarrow> string option \<Rightarrow> fs \<Rightarrow> bool \<times> string option \<times> fs" where
  "attempt e i url retry last_http_code files =
     (case url of
        JStr u \<Rightarrow>
          (case curl e i retry of
             CurlRaised \<Rightarrow> (False, last_http_code, files)
           | CurlDone out written \<Rightarrow>
               (let files' = (case written of
                                None \<Rightarrow> files
                              | Some f \<Rightarrow> files((VideosDir, VideoMp4 i) \<mapsto> f));
                    http_code = http_code_of out
                in case files' (VideosDir, VideoMp4 i) of
                     None \<Rightarrow> (False, Some http_code, files')
                   | Some f \<Rightarrow>
                       if st_size f = 0 then (False, Some http_code, files')
                       else if ffprobe_duration f = ProbeError then (False, Some http_code, files')
                       else (True, Some http_code, files')))
      | _ \<Rightarrow> (False, last_http_code, files))"

text \<open>
  \<open>for retry in range(max_retries)\<close>: \<open>Inr\<close> when the video is downloaded (or the range
  runs out), \<open>Inl\<close> for \<open>return (False, last_http_code)\<close>.
\<close>

fun retry_loop ::
  "env \<Rightarrow> nat \<Rightarrow> json \<Rightarrow> nat list \<Rightarrow> string option \<Rightarrow> fs \<Rightarrow> (string option \<times> fs) + fs" where
  "retry_loop e i url [] last_http_code files = Inr files"
| "retry_loop e i url (retry # rest) last_http_code files =
     (case attempt e i url retry last_http_code files of
        (True, code, files') \<Rightarrow> Inr files'
      | (False, code, files') \<Rightarrow>
          if retry < max_retries - 1
          then retry_loop e i url rest code (files'((VideosDir, VideoMp4 i) := None))
          else Inl (code, files'))"

text \<open>
  \<open>for i, video in enumerate(videos)\<close>. \<open>DlExhausted i code\<close> is the return after the
  last attempt for video \<open>i\<close>; \<open>DlRaised\<close> is an exception that reaches the outer handler.
\<close>

datatype download_result =
    DlOk fs
  | DlExhausted nat "string option" fs
  | DlRaised fs

fun download_loop :: "env \<Rightarrow> nat \<Rightarrow> json list \<Rightarrow> fs \<Rightarrow> download_result" where
  "download_loop e i [] files = DlOk files"
| "download_loop e i (video # videos) files =
     (case py_get video ''url'' JNull of
        Inl err \<Rightarrow> DlRaised files
      | Inr url \<Rightarrow>
          (case retry_loop e i url [0..<max_retries] None files of
             Inr files' \<Rightarrow> download_loop e (Suc i) videos files'
           | Inl (code, files') \<Rightarrow> DlExhausted i code files'))"

definition download_videos :: "env \<Rightarrow> fs \<Rightarrow> json \<Rightarrow> bool \<times> string option \<times> fs" where
  "download_videos e files vd =
     (case py_get vd ''videos'' (JList []) of
        Inl err \<Rightarrow> (False, None, files)
      | Inr videos \<Rightarrow>
          (case py_len videos of
             Inl err \<Rightarrow> (False, None, files)
           | Inr n \<Rightarrow>
               (case py_iter videos of
                  Inl err \<Rightarrow> (False, None, files)
                | Inr vs \<Rightarrow>
                    (case download_loop e 0 vs files of
                       DlOk files' \<Rightarrow> (True, None, files')
                     | DlExhausted i code files' \<Rightarrow> (False, code, files')
                     | DlRaised files' \<Rightarrow> (False, None, files')))))"

section \<open>Trim\<close>

text \<open>
  The body of \<open>for i in range(len(videos))\<close> in \<open>process_videos\<close>: \<open>None\<close> is
  \<open>return False\<close> (the input is missing, the probe fails or prints no number, the trim
  command exits with an error). A video longer than four seconds is cut and encoded
  again; any other is copied.
\<close>

definition trim_one :: "env \<Rightarrow> nat \<Rightarrow> fs \<Rightarrow> fs option" where
  "trim_one e i files =
     (case files (VideosDir, VideoMp4 i) of
        None \<Rightarrow> None
      | Some f \<Rightarrow>
          (case body f of
             Text t \<Rightarrow> None
           | Media m \<Rightarrow>
               (case m_duration m of
                  None \<Rightarrow> None
                | Some duration \<Rightarrow>
                    (let new_duration = duration - 4
                     in if new_duration > 0
                        then (case trim_exit e i of
                                None \<Rightarrow> None
                              | Some n \<Rightarrow>
                                  Some (files((VideosDir, TrimmedMp4 i) \<mapsto>
                                    File n (Media (ffmpeg_trim m 2 new_duration trim_options)))))
                        else Some (files((VideosDir, TrimmedMp4 i) \<mapsto> f))))))"

fun trim_loop :: "env \<Rightarrow> nat list \<Rightarrow> fs \<Rightarrow> bool \<times> fs" where
  "trim_loop e [] files = (True, files)"
| "trim_loop e (i # rest) files =
     (case trim_one e i files of
        None \<Rightarrow> (False, files)
      | Some files' \<Rightarrow> trim_loop e rest files')"

definition process_videos :: "env \<Rightarrow> fs \<Rightarrow> json \<Rightarrow> bool \<times> fs" where
  "process_videos e files vd =
     (case py_get vd ''videos'' (JList []) of
        Inl err \<Rightarrow> (False, files)
      | Inr videos \<Rightarrow>
          (case py_len videos of
             Inl err \<Rightarrow> (False, files)
           | Inr n \<Rightarrow> trim_loop e [0..<n] files))"

section \<open>Merge, narration, caption, upload\<close>

fun show_nat :: "nat \<Rightarrow> string" where
  "show_nat n =
     (if n < 10 then [char_of (48 + n)]
      else show_nat (n div 10) @ [char_of (48 + n mod 10)])"

text \<open>The line \<open>file 'trimmed_{i}.mp4'\<close> of the concat list, with its newline.\<close>

definition concat_line :: "nat \<Rightarrow> string" where
  "concat_line i =
     ''file '' @ [CHR 0x27] @ ''trimmed_'' @ show_nat i @ ''.mp4'' @ [CHR 0x27, CHR 0x0A]"

text \<open>The files the concat list names, as the concatenation reads them.\<close>

definition concat_inputs :: "fs \<Rightarrow> nat \<Rightarrow> scratch_file option list" where
  "concat_inputs files n = map (\<lambda>i. files (VideosDir, TrimmedMp4 i)) [0..<n]"

definition merge_videos :: "env \<Rightarrow> fs \<Rightarrow> json \<Rightarrow> bool \<times> fs" where
  "merge_videos e files vd =
     (case py_get vd ''videos'' (JList []) of
        Inl err \<Rightarrow> (False, files)
      | Inr videos \<Rightarrow>
          (case py_len videos of
             Inl err \<Rightarrow> (False, files((VideosDir, ConcatListTxt) \<mapsto> File 0 (Text [])))
           | Inr n \<Rightarrow>
               (let listing = concat (map concat_line [0..<n])
                in ffmpeg_concat e
                     (files((VideosDir, ConcatListTxt) \<mapsto> File (length listing) (Text listing))))))"

text \<open>\<open>get_video_duration\<close>: any failure of the probe gives \<open>0.0\<close>.\<close>

definition get_video_duration :: "fs \<Rightarrow> path \<Rightarrow> real" where
  "get_video_duration files video_path =
     (case files video_path of
        None \<Rightarrow> 0
      | Some f \<Rightarrow> (case ffprobe_duration f of ProbeOut (Some d) \<Rightarrow> d | _ \<Rightarrow> 0))"

text \<open>
  \<open>generate_script\<close>: an unset \<open>HUGGINGFACE_API_KEY\<close> puts \<open>None\<close> in the child's environment
  and \<open>subprocess.run\<close> raises.
\<close>

definition generate_script :: "config \<Rightarrow> env \<Rightarrow> fs \<Rightarrow> bool \<times> fs" where
  "generate_script cfg e files =
     (let video_duration = get_video_duration files (OutputDir, MergedTempMp4)
      in if video_duration = 0 then (False, files)
         else (case calculate_target_script_length_default video_duration of
                 Inl err \<Rightarrow> (False, files)
               | Inr target_length \<Rightarrow>
                   (case huggingface_api_key cfg of
                      None \<Rightarrow> (False, files)
                    | Some k \<Rightarrow> generate_script_sh e target_length video_duration files)))"

definition generate_audio :: "config \<Rightarrow> env \<Rightarrow> fs \<Rightarrow> bool \<times> fs" where
  "generate_audio cfg e files =
     (case generate_audio_sh e (if falsy (zalo_api_key cfg) then None else zalo_api_key cfg) files of
        (ok, files') \<Rightarrow>
          if \<not> ok then (False, files')
          else if files' (OutputDir, VoiceoverWav) = None then (False, files')
          else (True, files'))"

definition add_audio :: "env \<Rightarrow> fs \<Rightarrow> bool \<times> fs" where
  "add_audio e files = ffmpeg_add_audio e files"

text \<open>\<open>s.replace(c, r)\<close> for a one-character \<open>c\<close>.\<close>

definition replace_char :: "char \<Rightarrow> string \<Rightarrow> string \<Rightarrow> string" where
  "replace_char c r s = concat (map (\<lambda>x. if x = c then r else [x]) s)"

definition escape_text :: "string \<Rightarrow> string" where
  "escape_text t =
     replace_char (CHR 0x3A) [CHR 0x5C, CHR 0x3A]
       (replace_char (CHR 0x27) [CHR 0x27, CHR 0x5C, CHR 0x27, CHR 0x27] t)"

text \<open>
  The caption: the overlay file when it exists, the product name otherwise. \<open>Inl\<close> is an
  exception (a file that is not text, a \<open>productInfo\<close> that is not a dict).
\<close>

definition overlay_text :: "fs \<Rightarrow> json \<Rightarrow> error + json" where
  "overlay_text files vd =
     (case files (ScriptsDir, TextOverlayTxt) of
        Some f \<Rightarrow> (case body f of Text t \<Rightarrow> Inr (JStr (py_strip t)) | Media m \<Rightarrow> Inl (ValueError ''utf-8''))
      | None \<Rightarrow>
          (case py_get vd ''productInfo'' (JObj []) of
             Inl err \<Rightarrow> Inl err
           | Inr info \<Rightarrow> py_get info ''name'' (JStr ''Product'')))"

definition add_text_overlay :: "env \<Rightarrow> fs \<Rightarrow> json \<Rightarrow> bool \<times> fs" where
  "add_text_overlay e files vd =
     (case overlay_text files vd of
        Inl err \<Rightarrow> (False, files)
      | Inr caption \<Rightarrow>
          (case files (OutputDir, MergedWithAudioMp4) of
             None \<Rightarrow> (False, files)
           | Some f \<Rightarrow>
               if ffprobe_duration f = ProbeError then (False, files)
               else (case caption of
                       JStr t \<Rightarrow> ffmpeg_drawtext e (escape_text t) (fontsize (length t)) files
                     | _ \<Rightarrow> (False, files))))"

text \<open>
  \<open>upload_to_r2\<close>: \<open>r2_put\<close> is the key under which the object was stored, \<open>None\<close> when
  building the key or the put raised; the URL is derived from the key.
\<close>

definition upload_to_r2 :: "env \<Rightarrow> fs \<Rightarrow> string option" where
  "upload_to_r2 e files =
     (case files (OutputDir, FinalMergedVideoMp4) of
        None \<Rightarrow> None
      | Some f \<Rightarrow>
          map_option (\<lambda>r2_key. ''https://pub-09ecd227972848afb3d86c1f7f2b57b1.r2.dev/'' @ r2_key)
            (r2_put e))"

section \<open>One job: \<open>process_product\<close>\<close>

text \<open>The stages after the download, in order; the first that fails ends the job.\<close>

definition stages :: "config \<Rightarrow> env \<Rightarrow> fs \<Rightarrow> json \<Rightarrow> string option \<times> fs" where
  "stages cfg e files vd =
     (case process_videos e files vd of
        (False, f1) \<Rightarrow> (None, f1)
      | (True, f1) \<Rightarrow>
     (case merge_videos e f1 vd of
        (False, f2) \<Rightarrow> (None, f2)
      | (True, f2) \<Rightarrow>
     (case generate_script cfg e f2 of
        (False, f3) \<Rightarrow> (None, f3)
      | (True, f3) \<Rightarrow>
     (case generate_audio cfg e f3 of
        (False, f4) \<Rightarrow> (None, f4)
      | (True, f4) \<Rightarrow>
     (case add_audio e f4 of
        (False, f5) \<Rightarrow> (None, f5)
      | (True, f5) \<Rightarrow>
     (case add_text_overlay e f5 vd of
        (False, f6) \<Rightarrow> (None, f6)
      | (True, f6) \<Rightarrow> (upload_to_r2 e f6, f6)))))))"

text \<open>
  \<open>process_product\<close> returns the URL or \<open>None\<close>, with the job table and the scratch files
  as it leaves them. The only write it makes is \<open>update_crawl_status(product_id, False)\<close>
  after a failed download whose code is \<open>'404'\<close>; an error of that write is logged and
  dropped.
\<close>

definition process_product ::
  "config \<Rightarrow> env \<Rightarrow> int \<Rightarrow> json \<Rightarrow> db \<Rightarrow> fs \<Rightarrow> string option \<times> db \<times> fs" where
  "process_product cfg e product_id vd rows files =
     (if invalid_data vd then (None, rows, files)
      else (case py_get vd ''productInfo'' (JObj []) of
              Inl err \<Rightarrow> (None, rows, files)
            | Inr info \<Rightarrow>
          (case py_get info ''name'' (JStr ''Unknown'') of
              Inl err \<Rightarrow> (None, rows, files)
            | Inr product_name \<Rightarrow>
          (case download_videos e files vd of
              (False, error_code, files') \<Rightarrow>
                if error_code = Some ''404''
                then (case update_crawl_status e rows product_id False of
                        Inl err \<Rightarrow> (None, rows, files')
                      | Inr rows' \<Rightarrow> (None, rows', files'))
                else (None, rows, files')
            | (True, error_code, files') \<Rightarrow>
                (case stages cfg e files' vd of (r2_url, files'') \<Rightarrow> (r2_url, rows, files''))))))"

section \<open>The batch: \<open>run\<close> and \<open>main\<close>\<close>

record summary =
  success_count :: nat
  failed_count :: nat
  skipped_count :: nat

text \<open>\<open>if r2_url:\<close> holds for a string that is not empty.\<close>

definition url_truthy :: "string option \<Rightarrow> bool" where
  "url_truthy r2_url = (case r2_url of None \<Rightarrow> False | Some u \<Rightarrow> u \<noteq> [])"

text \<open>The body of \<open>for product in products\<close>.\<close>

definition run_step :: "config \<Rightarrow> env \<Rightarrow> product \<Rightarrow> summary \<times> db \<times> fs \<Rightarrow> summary \<times> db \<times> fs" where
  "run_step cfg e product st =
     (case st of (s, rows, files) \<Rightarrow>
        (let product_id = p_id product; vd = p_video_data product
         in if invalid_data vd
            then (s\<lparr> skipped_count := skipped_count s + 1 \<rparr>, rows, files)
            else (case process_product cfg e product_id vd rows (cleanup_directories files) of
                    (r2_url, rows', files') \<Rightarrow>
                      if url_truthy r2_url
                      then (case update_merge_status e rows' product_id (the r2_url) of
                              Inr rows'' \<Rightarrow>
                                (s\<lparr> success_count := success_count s + 1 \<rparr>, rows'', files')
                            | Inl err \<Rightarrow>
                                (s\<lparr> failed_count := failed_count s + 1 \<rparr>, rows', files'))
                      else (s\<lparr> failed_count := failed_count s + 1 \<rparr>, rows', files'))))"

text \<open>
  What the outside world does during a run of the script: whether the storage client can
  be constructed, whether the store answers the query, and the environment of the \<open>k\<close>-th
  fetched job.
\<close>

record world =
  boto3_client :: "string \<Rightarrow> string \<Rightarrow> string \<Rightarrow> error option"
  store_up :: bool
  job_env :: "nat \<Rightarrow> env"

fun run_loop ::
  "config \<Rightarrow> world \<Rightarrow> nat \<Rightarrow> product list \<Rightarrow> summary \<times> db \<times> fs \<Rightarrow> summary \<times> db \<times> fs" where
  "run_loop cfg w k [] st = st"
| "run_loop cfg w k (product # products) st =
     run_loop cfg w (Suc k) products (run_step cfg (job_env w k) product st)"

text \<open>
  \<open>run\<close>: \<open>Inl\<close> when the query raises; \<open>Inr (None, _)\<close> for the early return on an empty
  batch; \<open>Inr (Some s, _)\<close> with the counters of the summary.
\<close>

definition run :: "config \<Rightarrow> world \<Rightarrow> db \<Rightarrow> fs \<Rightarrow> error + (summary option \<times> db \<times> fs)" where
  "run cfg w rows files =
     (let files' = setup_directories files
      in case get_pending_products (store_up w) rows of
           Inl err \<Rightarrow> Inl err
         | Inr products \<Rightarrow>
             if products = [] then Inr (None, rows, files')
             else (case run_loop cfg w 0 products
                          (\<lparr> success_count = 0, failed_count = 0, skipped_count = 0 \<rparr>, rows, files') of
                     (s, rows', files'') \<Rightarrow> Inr (Some s, rows', files'')))"


section \<open>Relations and measures used in the proofs\<close>

text \<open>
  \<open>later_row r r'\<close>: \<open>r'\<close> is the row \<open>r\<close> after some writes of a batch: the same job, not
  pending unless \<open>r\<close> was, and merged if \<open>r\<close> was.
\<close>

definition later_row :: "row \<Rightarrow> row \<Rightarrow> bool" where
  "later_row r r' =
     (row_id r' = row_id r \<and> (pending r' \<longrightarrow> pending r)
      \<and> (merge_status r = Some True \<longrightarrow> merge_status r' = Some True))"

text \<open>The three ways a job of the batch is counted.\<close>

datatype verdict = Succeeded | Failed | Skipped

definition bump :: "verdict \<Rightarrow> summary \<Rightarrow> summary" where
  "bump v s =
     (case v of
        Succeeded \<Rightarrow> s\<lparr> success_count := success_count s + 1 \<rparr>
      | Failed \<Rightarrow> s\<lparr> failed_count := failed_count s + 1 \<rparr>
      | Skipped \<Rightarrow> s\<lparr> skipped_count := skipped_count s + 1 \<rparr>)"

definition total :: "summary \<Rightarrow> nat" where
  "total s = success_count s + failed_count s + skipped_count s"

section \<open>Sample inputs\<close>

text \<open>
  A source clip as a phone records it, an environment in which every stage of a job
  succeeds, one in which every download answers 404 with an error page, a descriptor
  with one video, and an environment with the four required variables and the
  text-generation key only.
\<close>

definition phone_encoding :: encoding where
  "phone_encoding = \<lparr> enc_vcodec = ''hevc'', enc_preset = ''fast'', enc_crf = 28,
     enc_acodec = ''mp3'', enc_abitrate = ''96k'', enc_arate = 44100, enc_fps = 25 \<rparr>"

definition clip :: "real \<Rightarrow> scratch_file" where
  "clip d = File 2048 (Media \<lparr> m_duration = Some d, m_encoding = phone_encoding,
     m_content = Source ''https://cdn.example/v.mp4'' \<rparr>)"

definition sample_env :: env where
  "sample_env = \<lparr>
     curl = (\<lambda>i retry. CurlDone ''200'' (Some (clip 10))),
     trim_exit = (\<lambda>i. Some 1024),
     ffmpeg_concat = (\<lambda>files. (True, files((OutputDir, MergedTempMp4) \<mapsto> clip 6))),
     generate_script_sh =
       (\<lambda>n d files. (True, files((ScriptsDir, TextOverlayTxt) \<mapsto> File 4 (Text ''Lamp'')))),
     generate_audio_sh = (\<lambda>k files. (True, files((OutputDir, VoiceoverWav) \<mapsto> clip 6))),
     ffmpeg_add_audio = (\<lambda>files. (True, files((OutputDir, MergedWithAudioMp4) \<mapsto> clip 6))),
     ffmpeg_drawtext = (\<lambda>t n files. (True, files((OutputDir, FinalMergedVideoMp4) \<mapsto> clip 6))),
     r2_put = Some ''merged_videos/20240101_000000_product_7_Lamp.mp4'',
     crawl_write_ok = True,
     merge_write_ok = True,
     now = 1700000000 \<rparr>"

definition gone_env :: env where
  "gone_env =
     sample_env\<lparr> curl := (\<lambda>i retry. CurlDone ''404'' (Some (File 9 (Text ''Not Found'')))) \<rparr>"

definition sample_world :: world where
  "sample_world = \<lparr> boto3_client = (\<lambda>endpoint key secret. None), store_up = True,
     job_env = (\<lambda>k. sample_env) \<rparr>"

definition sample_data :: json where
  "sample_data = JObj [(''videos'', JList [JObj [(''url'', JStr ''https://cdn.example/v.mp4'')]]),
                       (''productInfo'', JObj [(''name'', JStr ''Lamp'')])]"

definition sample_config :: config where
  "sample_config = \<lparr> db_url = ''postgres://db/products'', r2_access_key = ''key'',
     r2_secret_key = ''secret'', r2_endpoint = ''https://r2.example'', r2_bucket = ''yt-2-tiktok'',
     huggingface_endpoint = ''https://router.huggingface.co/v1/chat/completions'',
     huggingface_model = ''deepseek-ai/DeepSeek-V3.2-Exp'',
     huggingface_api_key = Some ''hf'', zalo_api_key = None \<rparr>"

definition job_row :: "int \<Rightarrow> json \<Rightarrow> row" where
  "job_row i vd = \<lparr> row_id = i, video_data = vd, merge_status = Some False,
     crawl_status = Some True, r2_video_url = None, processed_at = None \<rparr>"

text \<open>
  A descriptor with two videos, and the videos directory after their download: the first
  lasts ten seconds, the second three.
\<close>

definition two_videos :: json where
  "two_videos = JObj [(''videos'', JList [JObj [(''url'', JStr ''https://cdn.example/a.mp4'')],
                                           JObj [(''url'', JStr ''https://cdn.example/b.mp4'')]]),
                      (''productInfo'', JObj [(''name'', JStr ''Lamp'')])]"

definition downloaded :: fs where
  "downloaded = [(VideosDir, VideoMp4 0) \<mapsto> clip 10, (VideosDir, VideoMp4 1) \<mapsto> clip 3]"



text \<open>
  Three job tables: one whose second fetched job meets 404 on every download and whose
  third has no descriptor, and one with a single pending job between a merged one and
  one waiting for a crawl.
\<close>

definition mixed_world :: world where
  "mixed_world = \<lparr> boto3_client = (\<lambda>endpoint key secret. None), store_up = True,
     job_env = (\<lambda>k. if k = 1 then gone_env else sample_env) \<rparr>"

definition mixed_batch :: db where
  "mixed_batch = [job_row 9 JNull, job_row 8 sample_data, job_row 7 sample_data]"

definition done_batch :: db where
  "done_batch = [(job_row 5 sample_data)\<lparr> merge_status := Some True \<rparr>,
                 job_row 7 sample_data,
                 (job_row 6 sample_data)\<lparr> crawl_status := Some False \<rparr>]"

text \<open>The double nearest to 4.6, and a storage client that refuses its endpoint.\<close>

definition double_4_6 :: real where
  "double_4_6 = 2589569785738035 / 562949953421312"



section \<open>Narration budget\<close>

lemma pow2_powr: "pow2 k = 2 powr (of_int k)"
  by (simp add: pow2_def powr_int)

lemma pow2_pos: "0 < pow2 k"
  by (simp add: pow2_def)

lemma binary_exponent_eq:
  assumes "0 < x" and "pow2 k \<le> x" and "x < pow2 (k + 1)"
  shows "binary_exponent x = k"
proof -
  have "\<lfloor>log 2 x\<rfloor> = k"
    using assms by (subst floor_log_eq_powr_iff) (simp_all add: pow2_powr)
  with assms(1) show ?thesis by (simp add: binary_exponent_def)
qed

lemma round_half_even_nonneg: "0 \<le> x \<Longrightarrow> 0 \<le> round_half_even x"
  by (auto simp: round_half_even_def Let_def)

lemma round_half_even_int: "round_half_even (of_int n) = n"
  by (simp add: round_half_even_def)

lemma to_double_pos:
  assumes "0 < x"
  shows "to_double x = PosInf \<or> (\<exists>p. to_double x = Finite p \<and> 0 \<le> p)"
proof -
  let ?q = "pow2 (max (binary_exponent x - 52) (- 1074))"
  let ?y = "of_int (round_half_even (x / ?q)) * ?q"
  have q: "0 < ?q" by (rule pow2_pos)
  with assms have "0 \<le> x / ?q" by simp
  then have "0 \<le> round_half_even (x / ?q)" by (rule round_half_even_nonneg)
  with q have y: "0 \<le> ?y" by simp
  then have "\<not> ?y \<le> - (2 ^ 1024)" by (smt (verit) zero_less_power)
  with assms y show ?thesis by (auto simp: to_double_def Let_def)
qed

lemma round_half_even_ge_floor: "\<lfloor>x\<rfloor> \<le> round_half_even x"
  by (simp add: round_half_even_def Let_def)

lemma pow2_add: "pow2 (a + b) = pow2 a * pow2 b"
  by (simp add: pow2_powr powr_add)

lemma pow2_mono: "a \<le> b \<Longrightarrow> pow2 a \<le> pow2 b"
  by (simp add: pow2_powr)

lemma pow2_nat: "pow2 (int n) = 2 ^ n"
  by (simp add: pow2_def)

lemma to_double_round:
  assumes pos: "0 < x" and lo: "pow2 k \<le> x" and hi: "x < pow2 (k + 1)" and normal: "- 1022 \<le> k"
      and n: "round_half_even (x / pow2 (k - 52)) = n"
      and fin: "of_int n * pow2 (k - 52) < 2 ^ 1024"
  shows "to_double x = Finite (of_int n * pow2 (k - 52))"
proof -
  from pos lo hi have e: "binary_exponent x = k" by (rule binary_exponent_eq)
  from normal have m: "max (k - 52) (- 1074) = k - 52" by simp
  from pos have "0 \<le> x / pow2 (k - 52)" by (simp add: pow2_pos less_imp_le)
  then have "0 \<le> round_half_even (x / pow2 (k - 52))" by (rule round_half_even_nonneg)
  with n have "0 \<le> of_int n * pow2 (k - 52)" by (simp add: pow2_pos less_imp_le)
  then have nm: "\<not> of_int n * pow2 (k - 52) \<le> - (2 ^ 1024)"
    by (smt (verit) zero_less_power)
  from pos have nz: "x \<noteq> 0" by simp
  show ?thesis
    unfolding to_double_def Let_def e m n using nz nm fin by simp
qed

lemma to_double_exact:
  assumes pos: "0 < x" and lo: "pow2 k \<le> x" and hi: "x < pow2 (k + 1)"
      and normal: "- 1022 \<le> k" and fin: "k \<le> 1023"
      and rep: "x / pow2 (k - 52) = of_int n"
  shows "to_double x = Finite x"
proof -
  from rep have r: "round_half_even (x / pow2 (k - 52)) = n"
    by (simp only: round_half_even_int)
  from rep have undo: "of_int n * pow2 (k - 52) = x"
    using pow2_pos [of "k - 52"] by (simp add: field_simps)
  from fin have "pow2 (k + 1) \<le> pow2 1024" by (intro pow2_mono) simp
  also have "pow2 1024 = 2 ^ 1024" using pow2_nat [of 1024] by simp
  finally have "x < 2 ^ 1024" using hi by simp
  with undo have "of_int n * pow2 (k - 52) < 2 ^ 1024" by simp
  from to_double_round [OF pos lo hi normal r this] undo show ?thesis by simp
qed

lemma to_double_overflow:
  assumes "2 ^ 1024 \<le> x"
  shows "to_double x = PosInf"
proof -
  have big: "(0::real) < 2 ^ 1024" by simp
  with assms have pos: "0 < x" by linarith
  define k where "k = binary_exponent x"
  have kx: "pow2 k \<le> x"
    using pos unfolding k_def binary_exponent_def pow2_powr
    by (simp add: powr_le_iff floor_le_iff) 
  have "(1024::real) \<le> log 2 x"
    using assms pos by (simp add: le_log_iff powr_realpow [symmetric] del: powr_numeral)
  then have k: "1024 \<le> k" unfolding k_def binary_exponent_def using pos by (simp add: le_floor_iff)
  then have m: "max (k - 52) (- 1074) = k - 52" by simp
  let ?q = "pow2 (k - 52)"
  have q: "0 < ?q" by (rule pow2_pos)
  have "pow2 52 * ?q = pow2 k" using pow2_add [of 52 "k - 52"] by simp
  with kx q have "pow2 52 \<le> x / ?q" by (simp add: field_simps)
  then have "(4503599627370496::real) \<le> x / ?q" by (simp add: pow2_def)
  then have "4503599627370496 \<le> \<lfloor>x / ?q\<rfloor>" by (simp add: le_floor_iff)
  with round_half_even_ge_floor [of "x / ?q"]
  have "4503599627370496 \<le> round_half_even (x / ?q)" by linarith
  then have "(4503599627370496::real) \<le> of_int (round_half_even (x / ?q))" by linarith
  then have "4503599627370496 * ?q \<le> of_int (round_half_even (x / ?q)) * ?q"
    using q by simp
  moreover have "4503599627370496 * ?q = pow2 k"
    using pow2_add [of 52 "k - 52"] by (simp add: pow2_def)
  moreover have "pow2 1024 \<le> pow2 k" using k by (rule pow2_mono)
  moreover have "pow2 1024 = 2 ^ 1024" using pow2_nat [of 1024] by simp
  ultimately have "2 ^ 1024 \<le> of_int (round_half_even (x / ?q)) * ?q" by linarith
  with pos show ?thesis
    unfolding to_double_def Let_def k_def [symmetric] m by simp
qed

lemma to_double_600: "to_double 600 = Finite 600"
  by (rule to_double_exact [where k = 9 and n = 5277655813324800]) (simp_all add: pow2_def)

lemma to_double_90: "to_double 90 = Finite 90"
  by (rule to_double_exact [where k = 6 and n = 6333186975989760]) (simp_all add: pow2_def)

lemma to_double_37_5: "to_double 37.5 = Finite 37.5"
  by (rule to_double_exact [where k = 5 and n = 5277655813324800]) (simp_all add: pow2_def)

lemma to_double_4_6_15: "to_double (double_4_6 * 15) = Finite 69"
proof -
  have r: "round_half_even (double_4_6 * 15 / pow2 (6 - 52)) = 4855443348258816"
    by (simp add: double_4_6_def pow2_def round_half_even_def Let_def)
  have "to_double (double_4_6 * 15) = Finite (of_int 4855443348258816 * pow2 (6 - 52))"
    by (rule to_double_round [OF _ _ _ _ r]) (simp_all add: double_4_6_def pow2_def)
  then show ?thesis by (simp add: pow2_def)
qed

lemma is_double_15: "is_double 15"
  unfolding is_double_def
  by (rule to_double_exact [where k = 3 and n = 8444249301319680]) (simp_all add: pow2_def)

lemma is_double_40: "is_double 40"
  unfolding is_double_def
  by (rule to_double_exact [where k = 5 and n = 5629499534213120]) (simp_all add: pow2_def)

lemma is_double_2_5: "is_double 2.5"
  unfolding is_double_def
  by (rule to_double_exact [where k = 1 and n = 5629499534213120]) (simp_all add: pow2_def)

lemma is_double_4_6: "is_double double_4_6"
  unfolding is_double_def
  by (rule to_double_exact [where k = 2 and n = 5179139571476070])
    (simp_all add: pow2_def double_4_6_def)

lemma is_double_2_600: "is_double (2 ^ 600)"
  unfolding is_double_def
  by (rule to_double_exact [where k = 600 and n = 4503599627370496]) (simp_all add: pow2_def)

lemma target_length_6: "calculate_target_script_length_default 6 = Inr 90"
  using to_double_90
  by (simp add: calculate_target_script_length_default_def calculate_target_script_length_def
      default_chars_per_second_def fmul_def py_int_def)

text \<open>
  C6, as the code has it. For finite floats \<open>d > 0\<close> and \<open>r > 0\<close>, a duration and a rate,
  the float product \<open>d * r\<close>, which is the exact product rounded to the nearest double, is
  a non-negative finite float \<open>p\<close>, and then the narration budget is \<open>floor p\<close>, or it is
  infinite, and then \<open>int\<close> raises \<open>OverflowError\<close>; it is infinite whenever the exact
  product reaches \<open>2 ^ 1024\<close>. For 40 seconds at 15 characters per second the budget is
  600. The default rate is 15, which the call that leaves the rate out uses.
\<close>

theorem target_length_floor:
  assumes "is_double d" and "is_double r" and "0 < d" and "0 < r"
  shows "((\<exists>p. fmul d r = Finite p \<and> 0 \<le> p \<and> calculate_target_script_length d r = Inr \<lfloor>p\<rfloor>)
          \<or> (fmul d r = PosInf \<and> calculate_target_script_length d r = Inl OverflowError))
       \<and> (2 ^ 1024 \<le> d * r \<longrightarrow> calculate_target_script_length d r = Inl OverflowError)
       \<and> is_double 40.0 \<and> is_double 15.0
       \<and> calculate_target_script_length 40.0 15.0 = Inr 600
       \<and> default_chars_per_second = 15.0
       \<and> calculate_target_script_length_default d = calculate_target_script_length d 15.0"
proof -
  from assms(3,4) have "0 < d * r" by simp
  from to_double_pos [OF this]
  have a: "(\<exists>p. fmul d r = Finite p \<and> 0 \<le> p \<and> calculate_target_script_length d r = Inr \<lfloor>p\<rfloor>)
          \<or> (fmul d r = PosInf \<and> calculate_target_script_length d r = Inl OverflowError)"
    by (auto simp: calculate_target_script_length_def fmul_def py_int_def)
  have b: "2 ^ 1024 \<le> d * r \<longrightarrow> calculate_target_script_length d r = Inl OverflowError"
    by (simp add: calculate_target_script_length_def fmul_def py_int_def to_double_overflow)
  have c: "calculate_target_script_length 40.0 15.0 = Inr 600"
    using to_double_600 by (simp add: calculate_target_script_length_def fmul_def py_int_def)
  have d: "calculate_target_script_length_default d = calculate_target_script_length d 15.0"
    by (simp add: calculate_target_script_length_default_def default_chars_per_second_def)
  have e: "is_double 40.0" "is_double 15.0" using is_double_40 is_double_15 by simp_all
  from a b c d e show ?thesis by (simp add: default_chars_per_second_def)
qed

theorem target_length_floor_witness:
  "is_double 2.5 \<and> is_double 15.0 \<and> (0::real) < 2.5 \<and> (0::real) < 15.0
     \<and> fmul 2.5 15.0 = Finite 37.5
     \<and> calculate_target_script_length 2.5 15.0 = Inr 37
     \<and> calculate_target_script_length_default 2.5 = Inr 37"
proof -
  have a: "(0::real) < 2.5" and b: "(0::real) < 15.0" by simp_all
  have da: "is_double 2.5" by (rule is_double_2_5)
  have db: "is_double 15.0" using is_double_15 by simp
  have p: "fmul 2.5 15.0 = Finite 37.5" using to_double_37_5 by (simp add: fmul_def)
  have f: "\<lfloor>37.5 :: real\<rfloor> = 37" by (simp add: floor_eq_iff)
  note budget = target_length_floor [OF da db a b]
  from budget have "(\<exists>q. fmul 2.5 15.0 = Finite q \<and> calculate_target_script_length 2.5 15.0 = Inr \<lfloor>q\<rfloor>)
      \<or> fmul 2.5 15.0 = PosInf"
    by blast
  with p have g: "calculate_target_script_length 2.5 15.0 = Inr \<lfloor>37.5 :: real\<rfloor>"
    by (auto simp: floor_eq_iff)
  from budget
  have h: "calculate_target_script_length_default 2.5 = calculate_target_script_length 2.5 15.0"
    by blast
  from g h f have "calculate_target_script_length 2.5 15.0 = Inr 37"
    and "calculate_target_script_length_default 2.5 = Inr 37"
    by simp_all
  with a b da db p show ?thesis by blast
qed

text \<open>
  The claim as the specification states it fails twice. The rounding of the product shows
  in the result: for the double nearest to 4.6 at 15 characters per second the product
  rounds up to 69 and the budget is 69, while the exact product is below 69 and its floor
  is 68. And where the product overflows, for the duration and rate \<open>2 ^ 600\<close>, the function
  raises instead of returning.
\<close>

theorem target_length_not_floor_counterexample:
  "is_double double_4_6 \<and> is_double 15 \<and> 0 < double_4_6
   \<and> calculate_target_script_length double_4_6 15 = Inr 69
   \<and> \<lfloor>double_4_6 * 15\<rfloor> = 68
   \<and> is_double (2 ^ 600) \<and> (0::real) < 2 ^ 600
   \<and> calculate_target_script_length (2 ^ 600) (2 ^ 600) = Inl OverflowError"
proof -
  have a: "0 < double_4_6" by (simp add: double_4_6_def)
  have b: "\<lfloor>double_4_6 * 15\<rfloor> = 68" by (simp add: double_4_6_def floor_eq_iff)
  have c: "calculate_target_script_length double_4_6 15 = Inr 69"
    by (simp add: calculate_target_script_length_def fmul_def to_double_4_6_15 py_int_def)
  have "(2::real) ^ 1024 \<le> 2 ^ 600 * 2 ^ 600"
    by (simp add: power_add [symmetric])
  then have "to_double (2 ^ 600 * 2 ^ 600) = PosInf" by (rule to_double_overflow)
  then have d: "calculate_target_script_length (2 ^ 600) (2 ^ 600) = Inl OverflowError"
    by (simp add: calculate_target_script_length_def fmul_def py_int_def)
  from a b c d is_double_4_6 is_double_15 is_double_2_600 show ?thesis by simp
qed

section \<open>Caption font size\<close>

text \<open>
  C8. The caption font size depends on the length of the caption only: more than 70
  characters give 28, more than 50 and at most 70 give 32, at most 50 give 38; so 80 gives
  28, 60 gives 32, 30 gives 38, and the boundaries 70 and 50 give 32 and 38. It is the
  size \<open>add_text_overlay\<close> passes to the drawtext filter for the caption \<open>t\<close>.
\<close>

theorem fontsize_buckets:
  "(70 < n \<longrightarrow> fontsize n = 28)
   \<and> (50 < n \<and> n \<le> 70 \<longrightarrow> fontsize n = 32)
   \<and> (n \<le> 50 \<longrightarrow> fontsize n = 38)
   \<and> fontsize 80 = 28 \<and> fontsize 60 = 32 \<and> fontsize 30 = 38
   \<and> fontsize 70 = 32 \<and> fontsize 50 = 38
   \<and> (overlay_text files vd = Inr (JStr t) \<longrightarrow>
        files (OutputDir, MergedWithAudioMp4) = Some f \<longrightarrow>
        ffprobe_duration f \<noteq> ProbeError \<longrightarrow>
        add_text_overlay e files vd = ffmpeg_drawtext e (escape_text t) (fontsize (length t)) files)"
  by (simp add: fontsize_def add_text_overlay_def)

theorem fontsize_buckets_witness:
  "70 < (80::nat) \<and> fontsize 80 = 28 \<and> 50 < (60::nat) \<and> (60::nat) \<le> 70 \<and> fontsize 60 = 32
   \<and> (30::nat) \<le> 50 \<and> fontsize 30 = 38
   \<and> overlay_text [(OutputDir, MergedWithAudioMp4) \<mapsto> clip 6] sample_data = Inr (JStr ''Lamp'')
   \<and> [(OutputDir, MergedWithAudioMp4) \<mapsto> clip 6] (OutputDir, MergedWithAudioMp4) = Some (clip 6)
   \<and> ffprobe_duration (clip 6) \<noteq> ProbeError
   \<and> add_text_overlay sample_env [(OutputDir, MergedWithAudioMp4) \<mapsto> clip 6] sample_data
        = ffmpeg_drawtext sample_env ''Lamp'' 38 [(OutputDir, MergedWithAudioMp4) \<mapsto> clip 6]"
proof -
  let ?files = "[(OutputDir, MergedWithAudioMp4) \<mapsto> clip 6]"
  have a: "overlay_text ?files sample_data = Inr (JStr ''Lamp'')"
    by (simp add: overlay_text_def sample_data_def)
  have b: "?files (OutputDir, MergedWithAudioMp4) = Some (clip 6)" by simp
  have c: "ffprobe_duration (clip 6) \<noteq> ProbeError"
    by (simp add: ffprobe_duration_def clip_def)
  have d: "escape_text ''Lamp'' = ''Lamp''"
    by (simp add: escape_text_def replace_char_def)
  have sz: "fontsize (length ''Lamp'') = 38" by (simp add: fontsize_def)
  from fontsize_buckets [of 4 ?files sample_data "''Lamp''" "clip 6" sample_env] a b c d sz
  have e: "add_text_overlay sample_env ?files sample_data
        = ffmpeg_drawtext sample_env ''Lamp'' 38 ?files"
    by simp
  show ?thesis
    using fontsize_buckets [of 80] fontsize_buckets [of 60] fontsize_buckets [of 30] a b c e
    by simp
qed

section \<open>Startup\<close>






section \<open>The job table during a batch\<close>

lemma later_row_refl: "later_row r r"
  by (simp add: later_row_def)

lemma later_row_trans: "later_row a b \<Longrightarrow> later_row b c \<Longrightarrow> later_row a c"
  by (auto simp: later_row_def)

lemma later_rows_refl: "list_all2 later_row rows rows"
  by (simp add: list_all2_refl later_row_refl)

lemma later_rows_trans:
  "list_all2 later_row a b \<Longrightarrow> list_all2 later_row b c \<Longrightarrow> list_all2 later_row a c"
  using later_row_trans by (rule list_all2_trans)

lemma crawl_update_later:
  "later_row r (if row_id r = pid then r\<lparr> crawl_status := Some False \<rparr> else r)"
  by (simp add: later_row_def pending_def)

lemma merge_update_later:
  "later_row r (if row_id r = pid
                then r\<lparr> merge_status := Some True, r2_video_url := Some u, processed_at := Some t \<rparr>
                else r)"
  by (simp add: later_row_def pending_def)

lemma update_crawl_status_later:
  assumes "update_crawl_status e rows pid False = Inr rows'"
  shows "list_all2 later_row rows rows'"
proof -
  from assms have "rows' = map (\<lambda>r. if row_id r = pid then r\<lparr> crawl_status := Some False \<rparr> else r) rows"
    by (simp add: update_crawl_status_def split: if_splits)
  then show ?thesis
    by (simp add: list_all2_map2 list_all2_refl crawl_update_later)
qed

lemma update_merge_status_later:
  assumes "update_merge_status e rows pid url = Inr rows'"
  shows "list_all2 later_row rows rows'"
proof -
  from assms have "rows' = map (\<lambda>r. if row_id r = pid
                          then r\<lparr> merge_status := Some True, r2_video_url := Some url,
                                 processed_at := Some (now e) \<rparr>
                          else r) rows"
    by (simp add: update_merge_status_def split: if_splits)
  then show ?thesis
    by (simp add: list_all2_map2 list_all2_refl merge_update_later)
qed

lemma update_merge_status_merged:
  assumes "update_merge_status e rows pid url = Inr rows'" and "r \<in> set rows'" and "row_id r = pid"
  shows "merge_status r = Some True"
proof -
  let ?f = "\<lambda>r. if row_id r = pid
                 then r\<lparr> merge_status := Some True, r2_video_url := Some url,
                        processed_at := Some (now e) \<rparr>
                 else r"
  from assms(1) have "rows' = map ?f rows"
    by (simp add: update_merge_status_def split: if_splits)
  with assms(2) obtain r0 where r0: "r = ?f r0" by (auto simp only: set_map)
  show ?thesis
  proof (cases "row_id r0 = pid")
    case True
    with r0 show ?thesis by simp
  next
    case False
    with r0 have "row_id r \<noteq> pid" by simp
    with assms(3) show ?thesis by simp
  qed
qed

lemma process_product_rows:
  assumes "process_product cfg e pid vd rows files = (u, rows', files')"
  shows "rows' = rows \<or> update_crawl_status e rows pid False = Inr rows'"
  using assms unfolding process_product_def
  by (simp split: if_splits sum.splits prod.splits bool.splits)

lemma process_product_later:
  assumes "process_product cfg e pid vd rows files = (u, rows', files')"
  shows "list_all2 later_row rows rows'"
  using process_product_rows [OF assms] by (auto intro: later_rows_refl update_crawl_status_later)


lemma total_bump: "total (bump v s) = total s + 1"
  by (cases v) (simp_all add: bump_def total_def)

lemma success_bump:
  "success_count (bump v s) = (if v = Succeeded then success_count s + 1 else success_count s)"
  by (cases v) (simp_all add: bump_def)

lemma run_step_skipped:
  assumes "invalid_data (p_video_data p)"
  shows "run_step cfg e p (s, rows, files) = (bump Skipped s, rows, files)"
  using assms by (simp add: run_step_def bump_def)

lemma run_step_valid:
  assumes valid: "\<not> invalid_data (p_video_data p)"
      and step: "run_step cfg e p (s, rows, files) = (s', rows', files')"
  shows "(s' = bump Failed s \<and> list_all2 later_row rows rows')
       \<or> (s' = bump Succeeded s \<and> list_all2 later_row rows rows'
           \<and> (\<forall>r \<in> set rows'. row_id r = p_id p \<longrightarrow> merge_status r = Some True))"
proof -
  obtain u rows1 files1 where
    pp: "process_product cfg e (p_id p) (p_video_data p) rows (cleanup_directories files)
           = (u, rows1, files1)"
    by (cases "process_product cfg e (p_id p) (p_video_data p) rows (cleanup_directories files)")
  have l1: "list_all2 later_row rows rows1" using pp by (rule process_product_later)
  show ?thesis
  proof (cases "url_truthy u")
    case False
    with valid pp step have "s' = bump Failed s \<and> rows' = rows1"
      by (simp add: run_step_def bump_def)
    with l1 show ?thesis by simp
  next
    case True
    show ?thesis
    proof (cases "update_merge_status e rows1 (p_id p) (the u)")
      case (Inl err)
      with True valid pp step have "s' = bump Failed s \<and> rows' = rows1"
        by (simp add: run_step_def bump_def)
      with l1 show ?thesis by simp
    next
      case (Inr rows2)
      with True valid pp step have eq: "s' = bump Succeeded s \<and> rows' = rows2"
        by (simp add: run_step_def bump_def)
      from Inr have l2: "list_all2 later_row rows1 rows2" by (rule update_merge_status_later)
      have l: "list_all2 later_row rows rows2" using l1 l2 by (rule later_rows_trans)
      have m: "\<forall>r \<in> set rows2. row_id r = p_id p \<longrightarrow> merge_status r = Some True"
        using update_merge_status_merged [OF Inr] by blast
      from eq l m show ?thesis by simp
    qed
  qed
qed

lemma run_step_verdict:
  assumes step: "run_step cfg e p (s, rows, files) = (s', rows', files')"
  shows "\<exists>v. s' = bump v s \<and> list_all2 later_row rows rows'
           \<and> (v = Skipped \<longleftrightarrow> invalid_data (p_video_data p))
           \<and> (v = Skipped \<longrightarrow> rows' = rows)
           \<and> (v = Succeeded \<longrightarrow> (\<forall>r \<in> set rows'. row_id r = p_id p \<longrightarrow> merge_status r = Some True))"
proof (cases "invalid_data (p_video_data p)")
  case True
  with step run_step_skipped [OF True, of cfg e s rows files]
  have "s' = bump Skipped s \<and> rows' = rows" by simp
  with True show ?thesis by (auto intro: later_rows_refl)
next
  case False
  from run_step_valid [OF False step] show ?thesis
  proof
    assume "s' = bump Failed s \<and> list_all2 later_row rows rows'"
    with False show ?thesis by (intro exI [of _ Failed]) simp
  next
    assume "s' = bump Succeeded s \<and> list_all2 later_row rows rows'
           \<and> (\<forall>r \<in> set rows'. row_id r = p_id p \<longrightarrow> merge_status r = Some True)"
    with False show ?thesis by (intro exI [of _ Succeeded]) simp
  qed
qed

lemma later_rows_source:
  assumes "list_all2 later_row rows rows'" and "r' \<in> set rows'"
  shows "\<exists>r \<in> set rows. later_row r r'"
proof -
  from assms(2) obtain i where i: "i < length rows'" and ri: "rows' ! i = r'"
    by (auto simp: in_set_conv_nth)
  from assms(1) have len: "length rows = length rows'" by (rule list_all2_lengthD)
  from assms(1) i have "later_row (rows ! i) (rows' ! i)" by (rule list_all2_nthD2)
  moreover from i len have "rows ! i \<in> set rows" by simp
  ultimately show ?thesis using ri by blast
qed

lemma later_rows_merged:
  assumes "list_all2 later_row rows rows'"
      and "\<forall>r \<in> set rows. row_id r = pid \<longrightarrow> merge_status r = Some True"
      and "r' \<in> set rows'" and "row_id r' = pid"
  shows "merge_status r' = Some True"
proof -
  from later_rows_source [OF assms(1,3)] obtain r where "r \<in> set rows" and "later_row r r'"
    by blast
  with assms(2,4) show ?thesis by (auto simp: later_row_def)
qed

lemma later_rows_pending:
  assumes "list_all2 later_row rows rows'" and "r' \<in> set rows'" and "pending r'"
  shows "\<exists>r \<in> set rows. pending r \<and> row_id r = row_id r'"
proof -
  from later_rows_source [OF assms(1,2)] obtain r where "r \<in> set rows" and "later_row r r'"
    by blast
  with assms(3) show ?thesis by (auto simp: later_row_def)
qed

lemma run_loop_invariant:
  assumes "run_loop cfg w k ps (s, rows, files) = (s', rows', files')"
  shows "total s' = total s + length ps
       \<and> list_all2 later_row rows rows'
       \<and> success_count s' \<le> success_count s + length ps
       \<and> (success_count s' = success_count s + length ps \<longrightarrow>
            (\<forall>r \<in> set rows'. row_id r \<in> p_id ` set ps \<longrightarrow> merge_status r = Some True))"
  using assms
proof (induction ps arbitrary: k s rows files)
  case Nil
  then show ?case by (simp add: later_rows_refl)
next
  case (Cons p ps)
  obtain s1 rows1 files1 where
    step: "run_step cfg (job_env w k) p (s, rows, files) = (s1, rows1, files1)"
    by (cases "run_step cfg (job_env w k) p (s, rows, files)")
  with Cons.prems have rest: "run_loop cfg w (Suc k) ps (s1, rows1, files1) = (s', rows', files')"
    by simp
  from run_step_verdict [OF step] obtain v where
    v: "s1 = bump v s" and l1: "list_all2 later_row rows rows1"
    and vs: "v = Succeeded \<longrightarrow> (\<forall>r \<in> set rows1. row_id r = p_id p \<longrightarrow> merge_status r = Some True)"
    by blast
  from Cons.IH [OF rest] have
    t: "total s' = total s1 + length ps"
    and l2: "list_all2 later_row rows1 rows'"
    and le: "success_count s' \<le> success_count s1 + length ps"
    and all: "success_count s' = success_count s1 + length ps \<longrightarrow>
            (\<forall>r \<in> set rows'. row_id r \<in> p_id ` set ps \<longrightarrow> merge_status r = Some True)"
    by simp_all
  have s1le: "success_count s1 \<le> success_count s + 1"
    using v by (simp add: success_bump)
  have c1: "total s' = total s + length (p # ps)" using t v by (simp add: total_bump)
  have c2: "list_all2 later_row rows rows'" using l1 l2 by (rule later_rows_trans)
  have c3: "success_count s' \<le> success_count s + length (p # ps)" using le s1le by simp
  have c4: "success_count s' = success_count s + length (p # ps) \<longrightarrow>
            (\<forall>r \<in> set rows'. row_id r \<in> p_id ` set (p # ps) \<longrightarrow> merge_status r = Some True)"
  proof (intro impI ballI)
    fix r
    assume eq: "success_count s' = success_count s + length (p # ps)"
       and r: "r \<in> set rows'" and rid: "row_id r \<in> p_id ` set (p # ps)"
    from eq le s1le have s1eq: "success_count s1 = success_count s + 1"
      and rest_eq: "success_count s' = success_count s1 + length ps" by simp_all
    from s1eq v have "v = Succeeded" by (simp add: success_bump split: if_splits)
    with vs have head: "\<forall>r \<in> set rows1. row_id r = p_id p \<longrightarrow> merge_status r = Some True"
      by simp
    from rid have "row_id r = p_id p \<or> row_id r \<in> p_id ` set ps" by auto
    then show "merge_status r = Some True"
    proof
      assume "row_id r = p_id p"
      with later_rows_merged [OF l2 head r] show ?thesis by simp
    next
      assume "row_id r \<in> p_id ` set ps"
      with all rest_eq r show ?thesis by simp
    qed
  qed
  from c1 c2 c3 c4 show ?case by blast
qed


lemma no_videos_iff: "no_videos x \<longleftrightarrow> (\<forall>v vs. x \<noteq> JList (v # vs))"
proof (cases x)
  case (JList xs)
  then show ?thesis by (cases xs) (simp_all add: no_videos_def)
qed (simp_all add: no_videos_def)

lemma invalid_data_iff:
  "invalid_data vd \<longleftrightarrow>
     vd = JNull \<or> \<not> is_dict vd
     \<or> (\<forall>v vs. py_get vd ''videos'' (JList []) \<noteq> Inr (JList (v # vs)))"
proof (cases vd)
  case (JObj kvs)
  then show ?thesis by (simp add: invalid_data_def no_videos_iff)
qed (simp_all add: invalid_data_def)

lemma run_total:
  assumes "store_up w"
  shows "\<exists>s rows' files'. run cfg w rows files = Inr (s, rows', files')
     \<and> (case s of
           None \<Rightarrow> select_pending rows = [] \<and> rows' = rows
         | Some c \<Rightarrow> select_pending rows \<noteq> []
             \<and> run_loop cfg w 0 (select_pending rows)
                  (\<lparr> success_count = 0, failed_count = 0, skipped_count = 0 \<rparr>, rows,
                   setup_directories files) = (c, rows', files'))"
proof (cases "select_pending rows = []")
  case True
  with assms show ?thesis by (simp add: run_def get_pending_products_def)
next
  case False
  obtain c rows' files' where
    loop: "run_loop cfg w 0 (select_pending rows)
             (\<lparr> success_count = 0, failed_count = 0, skipped_count = 0 \<rparr>, rows,
              setup_directories files) = (c, rows', files')"
    by (cases "run_loop cfg w 0 (select_pending rows)
             (\<lparr> success_count = 0, failed_count = 0, skipped_count = 0 \<rparr>, rows,
              setup_directories files)")
  with assms False have "run cfg w rows files = Inr (Some c, rows', files')"
    by (simp add: run_def get_pending_products_def)
  with False loop show ?thesis by simp
qed

lemma run_some:
  assumes "run cfg w rows files = Inr (Some c, rows', files')"
  shows "select_pending rows \<noteq> []
       \<and> run_loop cfg w 0 (select_pending rows)
            (\<lparr> success_count = 0, failed_count = 0, skipped_count = 0 \<rparr>, rows,
             setup_directories files) = (c, rows', files')"
proof -
  from assms have up: "store_up w"
    by (simp add: run_def get_pending_products_def split: if_splits)
  from run_total [OF up, of cfg rows files] assms show ?thesis by auto
qed

lemma select_pending_set:
  "set (select_pending rows) = project ` {r \<in> set rows. pending r}"
  by (auto simp: select_pending_def)

lemma select_pending_empty: "select_pending rows = [] \<longleftrightarrow> (\<forall>r \<in> set rows. \<not> pending r)"
proof -
  have "select_pending rows = [] \<longleftrightarrow> set (select_pending rows) = {}" by simp
  also have "\<dots> \<longleftrightarrow> (\<forall>r \<in> set rows. \<not> pending r)"
    unfolding select_pending_set by auto
  finally show ?thesis .
qed

lemma run_all_succeeded:
  assumes r: "run cfg w rows files = Inr (Some c, rows', files')"
      and all: "success_count c = length (select_pending rows)"
  shows "select_pending rows' = []"
proof -
  from run_some [OF r] have
    loop: "run_loop cfg w 0 (select_pending rows)
            (\<lparr> success_count = 0, failed_count = 0, skipped_count = 0 \<rparr>, rows,
             setup_directories files) = (c, rows', files')" by simp
  from run_loop_invariant [OF loop] all have
    later: "list_all2 later_row rows rows'"
    and merged: "\<forall>r \<in> set rows'. row_id r \<in> p_id ` set (select_pending rows)
                   \<longrightarrow> merge_status r = Some True"
    by simp_all
  have "\<forall>r' \<in> set rows'. \<not> pending r'"
  proof
    fix r' assume r': "r' \<in> set rows'"
    show "\<not> pending r'"
    proof
      assume p: "pending r'"
      from later_rows_pending [OF later r' p] obtain r0 where
        r0: "r0 \<in> set rows" "pending r0" "row_id r0 = row_id r'" by blast
      then have "project r0 \<in> set (select_pending rows)"
        unfolding select_pending_set by blast
      then have "p_id (project r0) \<in> p_id ` set (select_pending rows)" by (rule imageI)
      with r0 have "row_id r' \<in> p_id ` set (select_pending rows)" by (simp add: project_def)
      with merged r' have "merge_status r' = Some True" by blast
      with p show False by (simp add: pending_def)
    qed
  qed
  then show ?thesis by (simp add: select_pending_empty)
qed

section \<open>Two sample batches, evaluated\<close>

text \<open>
  The model run on the sample job tables: in the first the job 7 succeeds, the job 8
  meets 404 on every download (its \<open>crawl_status\<close> becomes \<open>FALSE\<close>) and the job 9 is
  skipped; in the second the only pending job succeeds.
\<close>

lemmas sample_defs =
  sample_data_def sample_env_def gone_env_def sample_config_def clip_def job_row_def
  sample_world_def

lemmas pipeline_defs =
  process_product_def invalid_data_def no_videos_def download_videos_def attempt_def
  max_retries_def http_code_of_def py_strip_def py_isspace_def ffprobe_duration_def upt_rec
  stages_def process_videos_def trim_one_def merge_videos_def generate_script_def
  get_video_duration_def generate_audio_def add_audio_def add_text_overlay_def overlay_text_def
  upload_to_r2_def falsy_def Let_def update_crawl_status_def target_length_6

lemma select_mixed:
  "select_pending mixed_batch =
     [\<lparr> p_id = 7, p_video_data = sample_data \<rparr>, \<lparr> p_id = 8, p_video_data = sample_data \<rparr>,
      \<lparr> p_id = 9, p_video_data = JNull \<rparr>]"
  by (simp add: select_pending_def mixed_batch_def job_row_def pending_def project_def)

lemma step_ok:
  "\<exists>files'. run_step sample_config sample_env \<lparr> p_id = 7, p_video_data = sample_data \<rparr> (s, rows, files)
     = (s\<lparr> success_count := success_count s + 1 \<rparr>,
        map (\<lambda>r. if row_id r = 7
                 then r\<lparr> merge_status := Some True,
                        r2_video_url := Some ''https://pub-09ecd227972848afb3d86c1f7f2b57b1.r2.dev/merged_videos/20240101_000000_product_7_Lamp.mp4'',
                        processed_at := Some 1700000000 \<rparr>
                 else r) rows, files')"
  by (simp add: run_step_def pipeline_defs sample_defs url_truthy_def update_merge_status_def
      cleanup_directories_def rmtree_def)

lemma mixed_run:
  "\<exists>files'. run sample_config mixed_world mixed_batch Map.empty
     = Inr (Some \<lparr> success_count = 1, failed_count = 1, skipped_count = 1 \<rparr>,
            [job_row 9 JNull,
             (job_row 8 sample_data)\<lparr> crawl_status := Some False \<rparr>,
             (job_row 7 sample_data)\<lparr> merge_status := Some True,
                r2_video_url := Some ''https://pub-09ecd227972848afb3d86c1f7f2b57b1.r2.dev/merged_videos/20240101_000000_product_7_Lamp.mp4'',
                processed_at := Some 1700000000 \<rparr>],
            files')"
  by (simp add: run_def get_pending_products_def select_pending_def pending_def project_def
      run_step_def pipeline_defs
      sample_defs mixed_world_def mixed_batch_def url_truthy_def update_merge_status_def
      cleanup_directories_def rmtree_def setup_directories_def)

lemma done_run:
  "\<exists>files'. run sample_config sample_world done_batch Map.empty
     = Inr (Some \<lparr> success_count = 1, failed_count = 0, skipped_count = 0 \<rparr>,
            [(job_row 5 sample_data)\<lparr> merge_status := Some True \<rparr>,
             (job_row 7 sample_data)\<lparr> merge_status := Some True,
                r2_video_url := Some ''https://pub-09ecd227972848afb3d86c1f7f2b57b1.r2.dev/merged_videos/20240101_000000_product_7_Lamp.mp4'',
                processed_at := Some 1700000000 \<rparr>,
             (job_row 6 sample_data)\<lparr> crawl_status := Some False \<rparr>],
            files')"
  by (simp add: run_def get_pending_products_def select_pending_def pending_def project_def
      run_step_def pipeline_defs
      sample_defs done_batch_def url_truthy_def update_merge_status_def
      cleanup_directories_def rmtree_def setup_directories_def)

section \<open>Skipped jobs, the summary, and a second batch\<close>

text \<open>
  C9. A fetched job whose descriptor is null, is not an object, or has no non-empty list
  under \<open>videos\<close> is skipped: the iteration of \<open>run\<close> for it adds one to the skipped
  counter, leaves the other two counters alone and writes nothing to the job table (nor to
  the scratch files).
\<close>

theorem invalid_descriptor_skipped:
  assumes "p_video_data p = JNull \<or> \<not> is_dict (p_video_data p)
         \<or> (\<forall>v vs. py_get (p_video_data p) ''videos'' (JList []) \<noteq> Inr (JList (v # vs)))"
  shows "run_step cfg e p (s, rows, files)
           = (s\<lparr> skipped_count := skipped_count s + 1 \<rparr>, rows, files)"
proof -
  from assms have "invalid_data (p_video_data p)" by (simp add: invalid_data_iff)
  then show ?thesis by (simp add: run_step_def)
qed

theorem invalid_descriptor_skipped_witness:
  "run_step sample_config sample_env \<lparr> p_id = 9, p_video_data = JNull \<rparr>
      (\<lparr> success_count = 2, failed_count = 1, skipped_count = 0 \<rparr>, mixed_batch, Map.empty)
     = (\<lparr> success_count = 2, failed_count = 1, skipped_count = 1 \<rparr>, mixed_batch, Map.empty)
   \<and> \<not> is_dict (JStr ''{}'')
   \<and> run_step sample_config sample_env \<lparr> p_id = 9, p_video_data = JStr ''{}'' \<rparr>
      (\<lparr> success_count = 2, failed_count = 1, skipped_count = 0 \<rparr>, mixed_batch, Map.empty)
     = (\<lparr> success_count = 2, failed_count = 1, skipped_count = 1 \<rparr>, mixed_batch, Map.empty)
   \<and> py_get (JObj [(''videos'', JList [])]) ''videos'' (JList []) = Inr (JList [])
   \<and> run_step sample_config sample_env \<lparr> p_id = 9, p_video_data = JObj [(''videos'', JList [])] \<rparr>
      (\<lparr> success_count = 2, failed_count = 1, skipped_count = 0 \<rparr>, mixed_batch, Map.empty)
     = (\<lparr> success_count = 2, failed_count = 1, skipped_count = 1 \<rparr>, mixed_batch, Map.empty)"
proof -
  let ?s = "\<lparr> success_count = 2, failed_count = 1, skipped_count = 0 \<rparr>"
  have a: "run_step sample_config sample_env \<lparr> p_id = 9, p_video_data = JNull \<rparr>
             (?s, mixed_batch, Map.empty)
           = (?s\<lparr> skipped_count := skipped_count ?s + 1 \<rparr>, mixed_batch, Map.empty)"
    by (rule invalid_descriptor_skipped) simp
  have b: "run_step sample_config sample_env \<lparr> p_id = 9, p_video_data = JStr ''{}'' \<rparr>
             (?s, mixed_batch, Map.empty)
           = (?s\<lparr> skipped_count := skipped_count ?s + 1 \<rparr>, mixed_batch, Map.empty)"
    by (rule invalid_descriptor_skipped) simp
  have c: "run_step sample_config sample_env
             \<lparr> p_id = 9, p_video_data = JObj [(''videos'', JList [])] \<rparr>
             (?s, mixed_batch, Map.empty)
           = (?s\<lparr> skipped_count := skipped_count ?s + 1 \<rparr>, mixed_batch, Map.empty)"
    by (rule invalid_descriptor_skipped) simp
  from a b c show ?thesis by simp
qed

text \<open>
  C10. Every iteration of the batch loop adds one to exactly one of the three counters, and
  a batch whose query succeeds returns: either with no pending job, or with a summary in
  which success, failed and skipped add up to the number of jobs fetched.
\<close>

theorem run_counts_every_job:
  assumes "store_up w"
  shows "(\<exists>v. fst (run_step cfg e p (s0, rows0, files0)) = bump v s0)
     \<and> (\<exists>s rows' files'. run cfg w rows files = Inr (s, rows', files')
         \<and> (case s of
               None \<Rightarrow> length (select_pending rows) = 0
             | Some c \<Rightarrow> success_count c + failed_count c + skipped_count c
                           = length (select_pending rows)))"
proof
  obtain s1 rows1 files1 where st: "run_step cfg e p (s0, rows0, files0) = (s1, rows1, files1)"
    by (cases "run_step cfg e p (s0, rows0, files0)")
  from run_step_verdict [OF st] obtain v where "s1 = bump v s0" by blast
  with st show "\<exists>v. fst (run_step cfg e p (s0, rows0, files0)) = bump v s0" by auto
next
  from run_total [OF assms, of cfg rows files] obtain s rows' files' where
    r: "run cfg w rows files = Inr (s, rows', files')"
    and c: "case s of
           None \<Rightarrow> select_pending rows = [] \<and> rows' = rows
         | Some c \<Rightarrow> select_pending rows \<noteq> []
             \<and> run_loop cfg w 0 (select_pending rows)
                  (\<lparr> success_count = 0, failed_count = 0, skipped_count = 0 \<rparr>, rows,
                   setup_directories files) = (c, rows', files')"
    by blast
  have "case s of
           None \<Rightarrow> length (select_pending rows) = 0
         | Some c \<Rightarrow> success_count c + failed_count c + skipped_count c
                       = length (select_pending rows)"
  proof (cases s)
    case None
    with c show ?thesis by simp
  next
    case (Some k)
    with c have "run_loop cfg w 0 (select_pending rows)
                  (\<lparr> success_count = 0, failed_count = 0, skipped_count = 0 \<rparr>, rows,
                   setup_directories files) = (k, rows', files')" by simp
    from run_loop_invariant [OF this]
    have "total k = total \<lparr> success_count = 0, failed_count = 0, skipped_count = 0 \<rparr>
                      + length (select_pending rows)" by simp
    with Some show ?thesis by (simp add: total_def)
  qed
  with r show "\<exists>s rows' files'. run cfg w rows files = Inr (s, rows', files')
         \<and> (case s of
               None \<Rightarrow> length (select_pending rows) = 0
             | Some c \<Rightarrow> success_count c + failed_count c + skipped_count c
                           = length (select_pending rows))" by blast
qed

theorem run_counts_every_job_witness:
  "store_up mixed_world
   \<and> length (select_pending mixed_batch) = 3
   \<and> (\<exists>c rows' files'. run sample_config mixed_world mixed_batch Map.empty = Inr (Some c, rows', files')
        \<and> success_count c + failed_count c + skipped_count c = 3)"
proof -
  have up: "store_up mixed_world" by (simp add: mixed_world_def)
  have n: "length (select_pending mixed_batch) = 3" by (simp add: select_mixed)
  from run_counts_every_job [OF up, of sample_config sample_env _ _ _ _ mixed_batch Map.empty]
  obtain s rows' files' where
    r: "run sample_config mixed_world mixed_batch Map.empty = Inr (s, rows', files')"
    and c: "case s of
               None \<Rightarrow> length (select_pending mixed_batch) = 0
             | Some c \<Rightarrow> success_count c + failed_count c + skipped_count c
                           = length (select_pending mixed_batch)"
    by blast
  from c n obtain k where k: "s = Some k"
    and sum: "success_count k + failed_count k + skipped_count k = 3"
    by (cases s) simp_all
  from r k sum up n show ?thesis by blast
qed

lemma run_step_succeeded:
  assumes "fst (run_step cfg e p (s, rows, files)) = bump Succeeded s"
      and "r \<in> set (fst (snd (run_step cfg e p (s, rows, files))))" and "row_id r = p_id p"
  shows "merge_status r = Some True"
proof -
  obtain s1 rows1 files1 where st: "run_step cfg e p (s, rows, files) = (s1, rows1, files1)"
    by (cases "run_step cfg e p (s, rows, files)")
  from run_step_verdict [OF st] obtain v where v: "s1 = bump v s"
    and m: "v = Succeeded \<longrightarrow> (\<forall>r \<in> set rows1. row_id r = p_id p \<longrightarrow> merge_status r = Some True)"
    by blast
  from assms(1) st v have "success_count (bump v s) = success_count (bump Succeeded s)" by simp
  then have "v = Succeeded" by (simp add: success_bump split: if_splits)
  with m assms(2,3) st show ?thesis by simp
qed

lemma rerun_empty:
  assumes "select_pending rows = []" and "store_up w"
  shows "run cfg w rows files = Inr (None, rows, setup_directories files)"
  using assms by (simp add: run_def get_pending_products_def)

text \<open>
  C3. The selection holds exactly the rows with \<open>crawl_status = TRUE\<close> and
  \<open>merge_status = FALSE\<close>, once each, in ascending order of \<open>id\<close>; a job counted as a
  success has \<open>merge_status = TRUE\<close> on its rows; and after a batch in which every fetched
  job was counted as a success, the selection is empty, so the next batch returns at once
  without processing a job.
\<close>

theorem batch_idempotent:
  assumes "run cfg w rows files = Inr (Some c, rows', files')"
      and "success_count c = length (select_pending rows)"
  shows "set (select_pending rows)
           = project ` {r \<in> set rows. crawl_status r = Some True \<and> merge_status r = Some False}
       \<and> length (select_pending rows)
           = length (filter (\<lambda>r. crawl_status r = Some True \<and> merge_status r = Some False) rows)
       \<and> sorted (map p_id (select_pending rows))
       \<and> (\<forall>e p s rs fs. fst (run_step cfg e p (s, rs, fs)) = bump Succeeded s \<longrightarrow>
            (\<forall>r \<in> set (fst (snd (run_step cfg e p (s, rs, fs)))).
               row_id r = p_id p \<longrightarrow> merge_status r = Some True))
       \<and> select_pending rows' = []
       \<and> (\<forall>cfg' w' files''. store_up w' \<longrightarrow>
            run cfg' w' rows' files'' = Inr (None, rows', setup_directories files''))"
proof -
  have pend: "pending = (\<lambda>r. crawl_status r = Some True \<and> merge_status r = Some False)"
    by (auto simp: pending_def fun_eq_iff)
  have a: "set (select_pending rows)
           = project ` {r \<in> set rows. crawl_status r = Some True \<and> merge_status r = Some False}"
    unfolding select_pending_set pend ..
  have b: "length (select_pending rows)
           = length (filter (\<lambda>r. crawl_status r = Some True \<and> merge_status r = Some False) rows)"
    by (simp add: select_pending_def pend)
  have c: "sorted (map p_id (select_pending rows))"
    by (simp add: select_pending_def)
  have d: "\<forall>e p s rs fs. fst (run_step cfg e p (s, rs, fs)) = bump Succeeded s \<longrightarrow>
            (\<forall>r \<in> set (fst (snd (run_step cfg e p (s, rs, fs)))).
               row_id r = p_id p \<longrightarrow> merge_status r = Some True)"
    using run_step_succeeded by blast
  have e: "select_pending rows' = []" using assms by (rule run_all_succeeded)
  have f: "\<forall>cfg' w' files''. store_up w' \<longrightarrow>
            run cfg' w' rows' files'' = Inr (None, rows', setup_directories files'')"
    using rerun_empty [OF e] by blast
  from a b c d e f show ?thesis by blast
qed

theorem batch_idempotent_witness:
  "\<exists>c rows' files'.
     run sample_config sample_world done_batch Map.empty = Inr (Some c, rows', files')
     \<and> success_count c = length (select_pending done_batch)
     \<and> select_pending done_batch = [\<lparr> p_id = 7, p_video_data = sample_data \<rparr>]
     \<and> select_pending rows' = []
     \<and> store_up sample_world
     \<and> run sample_config sample_world rows' Map.empty = Inr (None, rows', Map.empty)"
proof -
  from done_run obtain rows' files' where
    r: "run sample_config sample_world done_batch Map.empty
          = Inr (Some \<lparr> success_count = 1, failed_count = 0, skipped_count = 0 \<rparr>, rows', files')"
    by blast
  have sel: "select_pending done_batch = [\<lparr> p_id = 7, p_video_data = sample_data \<rparr>]"
    by (simp add: select_pending_def done_batch_def job_row_def pending_def project_def)
  then have n: "success_count \<lparr> success_count = 1, failed_count = 0, skipped_count = 0 \<rparr>
                 = length (select_pending done_batch)" by simp
  have up: "store_up sample_world" by (simp add: sample_world_def)
  from batch_idempotent [OF r n] have
    e: "select_pending rows' = []"
    and f: "\<forall>cfg' w' files''. store_up w' \<longrightarrow>
            run cfg' w' rows' files'' = Inr (None, rows', setup_directories files'')"
    by blast+
  from f up have "run sample_config sample_world rows' Map.empty = Inr (None, rows', Map.empty)"
    by (simp add: setup_directories_def)
  with r n sel e up show ?thesis by blast
qed

section \<open>Trimmed clips\<close>

lemma trim_one_Some:
  assumes "trim_one e i files = Some files'"
  shows "\<exists>k m D. files (VideosDir, VideoMp4 i) = Some (File k (Media m)) \<and> m_duration m = Some D
           \<and> files' = files((VideosDir, TrimmedMp4 i) \<mapsto>
                (if 4 < D then File (the (trim_exit e i)) (Media (ffmpeg_trim m 2 (D - 4) trim_options))
                 else File k (Media m)))"
proof -
  from assms obtain f where f: "files (VideosDir, VideoMp4 i) = Some f"
    by (auto simp: trim_one_def split: option.splits)
  obtain k b where fk: "f = File k b" by (cases f)
  from assms f fk obtain m where m: "b = Media m"
    by (auto simp: trim_one_def split: body.splits)
  from assms f fk m obtain D where D: "m_duration m = Some D"
    by (auto simp: trim_one_def split: option.splits)
  from assms f fk m D
  have "files' = files((VideosDir, TrimmedMp4 i) \<mapsto>
                (if 4 < D then File (the (trim_exit e i)) (Media (ffmpeg_trim m 2 (D - 4) trim_options))
                 else File k (Media m)))"
    by (auto simp: trim_one_def Let_def split: option.splits if_splits)
  with f fk m D show ?thesis by blast
qed

lemma trim_one_frame:
  assumes "trim_one e i files = Some files'" and "p \<noteq> (VideosDir, TrimmedMp4 i)"
  shows "files' p = files p"
  using trim_one_Some [OF assms(1)] assms(2) by auto

lemma trim_loop_frame:
  assumes "trim_loop e ns files = (ok, files')" and "\<forall>i \<in> set ns. p \<noteq> (VideosDir, TrimmedMp4 i)"
  shows "files' p = files p"
  using assms
proof (induction ns arbitrary: files)
  case Nil
  then show ?case by simp
next
  case (Cons j rest)
  show ?case
  proof (cases "trim_one e j files")
    case None
    with Cons.prems show ?thesis by simp
  next
    case (Some files1)
    with Cons.prems have rest: "trim_loop e rest files1 = (ok, files')" by simp
    from Cons.prems have pj: "p \<noteq> (VideosDir, TrimmedMp4 j)"
      and prest: "\<forall>i \<in> set rest. p \<noteq> (VideosDir, TrimmedMp4 i)" by simp_all
    from Cons.IH [OF rest prest] have "files' p = files1 p" .
    also from trim_one_frame [OF Some pj] have "files1 p = files p" .
    finally show ?thesis .
  qed
qed

lemma trim_loop_result:
  assumes "trim_loop e ns files = (True, files')" and "distinct ns" and "i \<in> set ns"
      and "files (VideosDir, VideoMp4 i) = Some (File k (Media m))" and "m_duration m = Some D"
  shows "files' (VideosDir, TrimmedMp4 i) =
           Some (if 4 < D then File (the (trim_exit e i)) (Media (ffmpeg_trim m 2 (D - 4) trim_options))
                 else File k (Media m))"
  using assms
proof (induction ns arbitrary: files)
  case Nil
  then show ?case by simp
next
  case (Cons j rest)
  from Cons.prems(1) obtain files1 where
    one: "trim_one e j files = Some files1" and rest: "trim_loop e rest files1 = (True, files')"
    by (cases "trim_one e j files") simp_all
  show ?case
  proof (cases "i = j")
    case True
    from Cons.prems(2) True have "\<forall>n \<in> set rest. (VideosDir, TrimmedMp4 i) \<noteq> (VideosDir, TrimmedMp4 n)"
      by auto
    from trim_loop_frame [OF rest this]
    have "files' (VideosDir, TrimmedMp4 i) = files1 (VideosDir, TrimmedMp4 i)" .
    also from trim_one_Some [OF one] True Cons.prems(4,5)
    have "files1 (VideosDir, TrimmedMp4 i) =
           Some (if 4 < D then File (the (trim_exit e i)) (Media (ffmpeg_trim m 2 (D - 4) trim_options))
                 else File k (Media m))"
      by auto
    finally show ?thesis .
  next
    case False
    with Cons.prems(3) have irest: "i \<in> set rest" by simp
    from Cons.prems(2) have drest: "distinct rest" by simp
    have "files1 (VideosDir, VideoMp4 i) = files (VideosDir, VideoMp4 i)"
      by (rule trim_one_frame [OF one]) simp
    with Cons.prems(4) have f1: "files1 (VideosDir, VideoMp4 i) = Some (File k (Media m))" by simp
    from Cons.IH [OF rest drest irest f1 Cons.prems(5)] show ?thesis .
  qed
qed

lemma ffmpeg_trim_duration:
  assumes "m_duration m = Some D" and "4 < D"
  shows "m_duration (ffmpeg_trim m 2 (D - 4) opts) = Some (D - 4)"
  using assms by (simp add: ffmpeg_trim_def)

lemma process_videos_trimmed:
  assumes pv: "process_videos e files vd = (True, files')"
      and "py_get vd ''videos'' (JList []) = Inr videos" and "py_len videos = Inr n" and "i < n"
      and f: "files (VideosDir, VideoMp4 i) = Some f" and d: "ffprobe_duration f = ProbeOut (Some D)"
  shows "\<exists>k m. f = File k (Media m) \<and> m_duration m = Some D
          \<and> files' (VideosDir, TrimmedMp4 i) =
              Some (if 4 < D
                    then File (the (trim_exit e i)) (Media (ffmpeg_trim m 2 (D - 4) trim_options))
                    else f)"
proof -
  obtain k b where fk: "f = File k b" by (cases f)
  from d fk obtain m where m: "b = Media m" and md: "m_duration m = Some D"
    by (cases b) (simp_all add: ffprobe_duration_def)
  from pv assms(2,3) have loop: "trim_loop e [0..<n] files = (True, files')"
    by (simp add: process_videos_def)
  from f fk m have f': "files (VideosDir, VideoMp4 i) = Some (File k (Media m))" by simp
  from assms(4) have i: "i \<in> set [0..<n]" by simp
  from trim_loop_result [OF loop distinct_upt i f' md] fk m md show ?thesis by simp
qed

text \<open>
  C7. When the trim stage succeeds, a source video whose probed duration \<open>D\<close> exceeds four
  seconds has a trimmed clip that starts two seconds into it and lasts \<open>D - 4\<close> seconds;
  a video with \<open>D\<close> at most four has the original file, unchanged, as its trimmed clip. The
  duration of the cut is the transcoding engine's contract for \<open>-ss 2 -t (D - 4)\<close>.
\<close>

theorem trim_durations:
  assumes "process_videos e files vd = (True, files')"
      and "py_get vd ''videos'' (JList []) = Inr videos" and "py_len videos = Inr n" and "i < n"
      and "files (VideosDir, VideoMp4 i) = Some f" and "ffprobe_duration f = ProbeOut (Some D)"
  shows "(4 < D \<longrightarrow>
           (\<exists>k m0 k' m'. f = File k (Media m0)
              \<and> files' (VideosDir, TrimmedMp4 i) = Some (File k' (Media m'))
              \<and> ffprobe_duration (File k' (Media m')) = ProbeOut (Some (D - 4))
              \<and> m_content m' = Cut (m_content m0) 2 (D - 4)))
       \<and> (D \<le> 4 \<longrightarrow> files' (VideosDir, TrimmedMp4 i) = Some f)"
proof -
  from process_videos_trimmed [OF assms] obtain k m where
    f: "f = File k (Media m)" and d: "m_duration m = Some D"
    and t: "files' (VideosDir, TrimmedMp4 i) =
              Some (if 4 < D
                    then File (the (trim_exit e i)) (Media (ffmpeg_trim m 2 (D - 4) trim_options))
                    else f)"
    by blast
  show ?thesis
  proof (intro conjI impI)
    assume long: "4 < D"
    let ?m' = "ffmpeg_trim m 2 (D - 4) trim_options"
    from t long have a: "files' (VideosDir, TrimmedMp4 i) = Some (File (the (trim_exit e i)) (Media ?m'))"
      by simp
    from ffmpeg_trim_duration [OF d long]
    have b: "ffprobe_duration (File (the (trim_exit e i)) (Media ?m')) = ProbeOut (Some (D - 4))"
      by (simp add: ffprobe_duration_def)
    have c: "m_content ?m' = Cut (m_content m) 2 (D - 4)" by (simp add: ffmpeg_trim_def)
    from f a b c show "\<exists>k m0 k' m'. f = File k (Media m0)
              \<and> files' (VideosDir, TrimmedMp4 i) = Some (File k' (Media m'))
              \<and> ffprobe_duration (File k' (Media m')) = ProbeOut (Some (D - 4))
              \<and> m_content m' = Cut (m_content m0) 2 (D - 4)" by blast
  next
    assume "D \<le> 4"
    with t show "files' (VideosDir, TrimmedMp4 i) = Some f" by simp
  qed
qed

lemma downloaded_trimmed:
  "process_videos sample_env downloaded two_videos =
     (True, downloaded((VideosDir, TrimmedMp4 0) \<mapsto>
              File 1024 (Media (ffmpeg_trim \<lparr> m_duration = Some 10, m_encoding = phone_encoding,
                  m_content = Source ''https://cdn.example/v.mp4'' \<rparr> 2 6 trim_options)),
            (VideosDir, TrimmedMp4 1) \<mapsto> clip 3))"
  by (simp add: process_videos_def two_videos_def trim_one_def downloaded_def clip_def
      sample_env_def upt_rec)

lemma two_videos_list:
  "py_get two_videos ''videos'' (JList []) =
     Inr (JList [JObj [(''url'', JStr ''https://cdn.example/a.mp4'')],
                 JObj [(''url'', JStr ''https://cdn.example/b.mp4'')]])
   \<and> py_len (JList [JObj [(''url'', JStr ''https://cdn.example/a.mp4'')],
                 JObj [(''url'', JStr ''https://cdn.example/b.mp4'')]]) = Inr 2"
  by (simp add: two_videos_def)

theorem trim_durations_witness:
  "fst (process_videos sample_env downloaded two_videos)
   \<and> downloaded (VideosDir, VideoMp4 0) = Some (clip 10)
   \<and> ffprobe_duration (clip 10) = ProbeOut (Some 10) \<and> (4::real) < 10
   \<and> (\<exists>k' m'. snd (process_videos sample_env downloaded two_videos) (VideosDir, TrimmedMp4 0)
                  = Some (File k' (Media m'))
          \<and> ffprobe_duration (File k' (Media m')) = ProbeOut (Some 6)
          \<and> m_content m' = Cut (Source ''https://cdn.example/v.mp4'') 2 6)
   \<and> downloaded (VideosDir, VideoMp4 1) = Some (clip 3)
   \<and> ffprobe_duration (clip 3) = ProbeOut (Some 3) \<and> (3::real) \<le> 4
   \<and> snd (process_videos sample_env downloaded two_videos) (VideosDir, TrimmedMp4 1) = Some (clip 3)"
proof -
  obtain files' where pv: "process_videos sample_env downloaded two_videos = (True, files')"
    using downloaded_trimmed by simp
  note vs = two_videos_list [THEN conjunct1] and n = two_videos_list [THEN conjunct2]
  have f0: "downloaded (VideosDir, VideoMp4 0) = Some (clip 10)" by (simp add: downloaded_def)
  have f1: "downloaded (VideosDir, VideoMp4 1) = Some (clip 3)" by (simp add: downloaded_def)
  have d0: "ffprobe_duration (clip 10) = ProbeOut (Some 10)"
    by (simp add: ffprobe_duration_def clip_def)
  have d1: "ffprobe_duration (clip 3) = ProbeOut (Some 3)"
    by (simp add: ffprobe_duration_def clip_def)
  from trim_durations [OF pv vs n _ f0 d0]
  have "\<exists>k m0 k' m'. clip 10 = File k (Media m0)
              \<and> files' (VideosDir, TrimmedMp4 0) = Some (File k' (Media m'))
              \<and> ffprobe_duration (File k' (Media m')) = ProbeOut (Some (10 - 4))
              \<and> m_content m' = Cut (m_content m0) 2 (10 - 4)" by simp
  then have long: "\<exists>k' m'. files' (VideosDir, TrimmedMp4 0) = Some (File k' (Media m'))
          \<and> ffprobe_duration (File k' (Media m')) = ProbeOut (Some 6)
          \<and> m_content m' = Cut (Source ''https://cdn.example/v.mp4'') 2 6"
    by (auto simp: clip_def)
  from trim_durations [OF pv vs n _ f1 d1]
  have short: "files' (VideosDir, TrimmedMp4 1) = Some (clip 3)" by simp
  from pv f0 f1 d0 d1 long short show ?thesis by simp
qed

text \<open>
  C4, as the code has it. The files the concat list names are the trimmed clips. The clip
  of a source video longer than four seconds was encoded with the fixed trim options; the
  clip of a video of at most four seconds is the downloaded file itself, in whatever
  encoding it came.
\<close>

theorem concat_inputs_encoding:
  assumes "process_videos e files vd = (True, files')"
      and "py_get vd ''videos'' (JList []) = Inr videos" and "py_len videos = Inr n" and "i < n"
      and "files (VideosDir, VideoMp4 i) = Some f" and "ffprobe_duration f = ProbeOut (Some D)"
  shows "concat_inputs files' n ! i = files' (VideosDir, TrimmedMp4 i)
       \<and> (4 < D \<longrightarrow>
           (\<exists>k' m'. files' (VideosDir, TrimmedMp4 i) = Some (File k' (Media m'))
              \<and> m_encoding m' = trim_options))
       \<and> (D \<le> 4 \<longrightarrow> files' (VideosDir, TrimmedMp4 i) = Some f)"
proof -
  from process_videos_trimmed [OF assms] obtain k m where
    t: "files' (VideosDir, TrimmedMp4 i) =
              Some (if 4 < D
                    then File (the (trim_exit e i)) (Media (ffmpeg_trim m 2 (D - 4) trim_options))
                    else f)"
    by blast
  have a: "concat_inputs files' n ! i = files' (VideosDir, TrimmedMp4 i)"
    using assms(4) by (simp add: concat_inputs_def)
  have b: "4 < D \<longrightarrow>
           (\<exists>k' m'. files' (VideosDir, TrimmedMp4 i) = Some (File k' (Media m'))
              \<and> m_encoding m' = trim_options)"
  proof
    assume "4 < D"
    with t have "files' (VideosDir, TrimmedMp4 i)
        = Some (File (the (trim_exit e i)) (Media (ffmpeg_trim m 2 (D - 4) trim_options)))" by simp
    moreover have "m_encoding (ffmpeg_trim m 2 (D - 4) trim_options) = trim_options"
      by (simp add: ffmpeg_trim_def)
    ultimately show "\<exists>k' m'. files' (VideosDir, TrimmedMp4 i) = Some (File k' (Media m'))
              \<and> m_encoding m' = trim_options" by blast
  qed
  have c: "D \<le> 4 \<longrightarrow> files' (VideosDir, TrimmedMp4 i) = Some f" using t by simp
  from a b c show ?thesis by blast
qed

theorem concat_inputs_encoding_witness:
  "fst (process_videos sample_env downloaded two_videos)
   \<and> downloaded (VideosDir, VideoMp4 0) = Some (clip 10)
   \<and> ffprobe_duration (clip 10) = ProbeOut (Some 10) \<and> (4::real) < 10
   \<and> (\<exists>k' m'. concat_inputs (snd (process_videos sample_env downloaded two_videos)) 2 ! 0
                  = Some (File k' (Media m'))
          \<and> m_encoding m' = trim_options)
   \<and> downloaded (VideosDir, VideoMp4 1) = Some (clip 3)
   \<and> ffprobe_duration (clip 3) = ProbeOut (Some 3) \<and> (3::real) \<le> 4
   \<and> concat_inputs (snd (process_videos sample_env downloaded two_videos)) 2 ! 1 = Some (clip 3)"
proof -
  obtain files' where pv: "process_videos sample_env downloaded two_videos = (True, files')"
    using downloaded_trimmed by simp
  note vs = two_videos_list [THEN conjunct1] and n = two_videos_list [THEN conjunct2]
  have f0: "downloaded (VideosDir, VideoMp4 0) = Some (clip 10)" by (simp add: downloaded_def)
  have f1: "downloaded (VideosDir, VideoMp4 1) = Some (clip 3)" by (simp add: downloaded_def)
  have d0: "ffprobe_duration (clip 10) = ProbeOut (Some 10)"
    by (simp add: ffprobe_duration_def clip_def)
  have d1: "ffprobe_duration (clip 3) = ProbeOut (Some 3)"
    by (simp add: ffprobe_duration_def clip_def)
  from concat_inputs_encoding [OF pv vs n _ f0 d0]
  have long: "\<exists>k' m'. concat_inputs files' 2 ! 0 = Some (File k' (Media m'))
          \<and> m_encoding m' = trim_options" by simp
  from concat_inputs_encoding [OF pv vs n _ f1 d1]
  have short: "concat_inputs files' 2 ! 1 = Some (clip 3)" by simp
  from pv f0 f1 d0 d1 long short show ?thesis by simp
qed

text \<open>
  The claim as the specification states it fails for a short video: the three-second clip
  reaches the concatenation in the encoding of its source.
\<close>

theorem short_clip_not_reencoded_counterexample:
  "fst (process_videos sample_env downloaded two_videos)
   \<and> concat_inputs (snd (process_videos sample_env downloaded two_videos)) 2 ! 1
       = Some (File 2048 (Media \<lparr> m_duration = Some 3, m_encoding = phone_encoding,
                                  m_content = Source ''https://cdn.example/v.mp4'' \<rparr>))
   \<and> phone_encoding \<noteq> trim_options"
  by (simp add: downloaded_trimmed concat_inputs_def clip_def phone_encoding_def trim_options_def
      upt_rec)

section \<open>Cleanup before a job\<close>







section \<open>Downloads that run out of attempts\<close>











end
